theory Spec2Isabelle
  imports Complex_Main "HOL-Library.AList" "HOL-Library.Multiset"
    "HOL-Library.List_Lexorder" "HOL-Library.Char_ord"
begin

section \<open>Conventions of the embedding\<close>

text \<open>
  A Go map is an association list whose keys are pairwise distinct; the order of the list
  is the order in which one \<^verbatim>\<open>range\<close> statement visits the entries. Go leaves that
  order unspecified, so every result below is stated for an arbitrary list.
  \<^verbatim>\<open>m[k] = v\<close> is \<open>AList.update k v\<close>, \<^verbatim>\<open>delete(m, k)\<close> is \<open>AList.delete k\<close>,
  \<^verbatim>\<open>v, ok := m[k]\<close> is \<open>map_of m k\<close> and \<^verbatim>\<open>len(m)\<close> is \<open>length m\<close>.

  An \<^verbatim>\<open>int\<close>, \<^verbatim>\<open>int32\<close> or \<^verbatim>\<open>int64\<close> that counts objects or stands in an
  attribute tree is an unbounded integer: nothing below adds to one often enough to
  leave its range.

  A \<^verbatim>\<open>time.Time\<close> is a number of nanoseconds on the process's clock and
  \<^verbatim>\<open>time.Now()\<close> is an argument of each operation that reads the clock. A
  \<^verbatim>\<open>time.Duration\<close> is an \<^verbatim>\<open>int64\<close> count of nanoseconds, whose arithmetic wraps.
  A pointer argument that may be \<^verbatim>\<open>nil\<close> is an \<open>option\<close>.
\<close>

definition wrap64 :: "int \<Rightarrow> int" where
  "wrap64 x = (x + 2 ^ 63) mod 2 ^ 64 - 2 ^ 63"

definition Hour :: int where
  "Hour = 3600000000000"

section \<open>Pod aggregator\<close>

record Pod =
  pod_Namespace :: string
  pod_Name :: string
  pod_Phase :: string
  pod_Conditions :: "(string \<times> string) list"

record AggregatedPod =
  ap_Namespace :: string
  ap_Phase :: string
  ap_Count :: int
  ap_LastSeen :: int
  ap_Pods :: "(string \<times> bool) list"

record PodAggregator =
  pa_windowSize :: int
  pa_aggregated :: "(string \<times> AggregatedPod) list"
  pa_abnormalPods :: "(string \<times> int) list"

definition NewPodAggregator :: "int \<Rightarrow> PodAggregator" where
  "NewPodAggregator windowSize =
     \<lparr>pa_windowSize = windowSize, pa_aggregated = [], pa_abnormalPods = []\<rparr>"

definition podAggregationKey :: "Pod \<Rightarrow> string" where
  "podAggregationKey pod = pod_Namespace pod @ ''/'' @ pod_Phase pod"

definition isPodAbnormal :: "Pod \<Rightarrow> bool" where
  "isPodAbnormal pod =
     (if pod_Phase pod = ''Failed'' \<or> pod_Phase pod = ''Unknown'' then True
      else if pod_Phase pod = ''Pending'' then
        list_ex (\<lambda>(ty, st). ty = ''PodScheduled'' \<and> st = ''False'') (pod_Conditions pod)
      else if pod_Phase pod = ''Running'' then
        list_ex (\<lambda>(ty, st). ty = ''Ready'' \<and> st = ''False'') (pod_Conditions pod)
      else False)"

definition trackAbnormal :: "Pod \<Rightarrow> int \<Rightarrow> (string \<times> int) list \<Rightarrow> (string \<times> int) list" where
  "trackAbnormal pod now ab =
     (if isPodAbnormal pod then
        (let abnormalKey = pod_Namespace pod @ ''/'' @ pod_Name pod in
         case map_of ab abnormalKey of
           None \<Rightarrow> AList.update abnormalKey now ab
         | Some _ \<Rightarrow> ab)
      else ab)"

fun AddPod :: "Pod option \<Rightarrow> int \<Rightarrow> PodAggregator \<Rightarrow> PodAggregator" where
  "AddPod None now a = a"
| "AddPod (Some pod) now a =
     (let key = podAggregationKey pod;
          aggregated' =
            (case map_of (pa_aggregated a) key of
               Some agg \<Rightarrow>
                 AList.update key
                   (agg\<lparr>ap_Count := int (length (ap_Pods agg)) + 1,
                        ap_LastSeen := now,
                        ap_Pods := AList.update (pod_Name pod) True (ap_Pods agg)\<rparr>)
                   (pa_aggregated a)
             | None \<Rightarrow>
                 AList.update key
                   \<lparr>ap_Namespace = pod_Namespace pod, ap_Phase = pod_Phase pod, ap_Count = 1,
                    ap_LastSeen = now, ap_Pods = [(pod_Name pod, True)]\<rparr>
                   (pa_aggregated a))
      in a\<lparr>pa_aggregated := aggregated',
            pa_abnormalPods := trackAbnormal pod now (pa_abnormalPods a)\<rparr>)"

fun RemovePod :: "Pod option \<Rightarrow> PodAggregator \<Rightarrow> PodAggregator" where
  "RemovePod None a = a"
| "RemovePod (Some pod) a =
     (let key = podAggregationKey pod;
          aggregated' =
            (case map_of (pa_aggregated a) key of
               Some agg \<Rightarrow>
                 (let pods' = AList.delete (pod_Name pod) (ap_Pods agg);
                      agg' = agg\<lparr>ap_Pods := pods', ap_Count := int (length pods')\<rparr>
                  in if ap_Count agg' = 0 then AList.delete key (pa_aggregated a)
                     else AList.update key agg' (pa_aggregated a))
             | None \<Rightarrow> pa_aggregated a);
          abnormalKey = pod_Namespace pod @ ''/'' @ pod_Name pod
      in a\<lparr>pa_aggregated := aggregated',
            pa_abnormalPods := AList.delete abnormalKey (pa_abnormalPods a)\<rparr>)"

definition GetAbnormalDuration :: "string \<Rightarrow> string \<Rightarrow> int \<Rightarrow> PodAggregator \<Rightarrow> int" where
  "GetAbnormalDuration namespace podName now a =
     (case map_of (pa_abnormalPods a) (namespace @ ''/'' @ podName) of
        Some firstSeen \<Rightarrow> now - firstSeen
      | None \<Rightarrow> 0)"

text \<open>
  \<^verbatim>\<open>cleanup\<close> of the pod aggregator: the threshold is
  \<^verbatim>\<open>now.Add(-a.windowSize * 2)\<close>, the product computed in \<^verbatim>\<open>int64\<close>; a bucket is
  dropped when \<^verbatim>\<open>agg.LastSeen.Before(threshold)\<close>.
\<close>

definition pod_cleanup :: "int \<Rightarrow> PodAggregator \<Rightarrow> PodAggregator" where
  "pod_cleanup now a =
     (let threshold = now + wrap64 (wrap64 (- pa_windowSize a) * 2)
      in a\<lparr>pa_aggregated :=
             filter (\<lambda>(key, agg). \<not> ap_LastSeen agg < threshold) (pa_aggregated a)\<rparr>)"

section \<open>Event aggregator\<close>

record Event =
  ev_Namespace :: string
  ev_Reason :: string
  ev_Type :: string
  ev_Count :: int
  ev_InvolvedKind :: string
  ev_InvolvedName :: string
  ev_FirstTimestamp :: int

record AggregatedEvent =
  ae_Namespace :: string
  ae_Reason :: string
  ae_Type :: string
  ae_Kind :: string
  ae_Count :: int
  ae_LastSeen :: int
  ae_FirstSeen :: int
  ae_UniqueObjects :: "(string \<times> bool) list"

record EventAggregator =
  ea_windowSize :: int
  ea_maxEvents :: int
  ea_aggregated :: "(string \<times> AggregatedEvent) list"

definition NewEventAggregator :: "int \<Rightarrow> int \<Rightarrow> EventAggregator" where
  "NewEventAggregator windowSize maxEvents =
     \<lparr>ea_windowSize = windowSize, ea_maxEvents = maxEvents, ea_aggregated = []\<rparr>"

definition eventAggregationKey :: "Event \<Rightarrow> string" where
  "eventAggregationKey event =
     ev_Namespace event @ ''/'' @ ev_Reason event @ ''/'' @ ev_InvolvedKind event"

text \<open>
  The loop of \<^verbatim>\<open>removeOldest\<close>: the pair is \<^verbatim>\<open>(oldestKey, oldestTime)\<close>, which
  starts as the empty string and the zero time.
\<close>

fun oldest_scan :: "(string \<times> AggregatedEvent) list \<Rightarrow> string \<times> int \<Rightarrow> string \<times> int" where
  "oldest_scan [] acc = acc"
| "oldest_scan ((key, agg) # rest) (oldestKey, oldestTime) =
     (if oldestKey = [] \<or> ae_LastSeen agg < oldestTime
      then oldest_scan rest (key, ae_LastSeen agg)
      else oldest_scan rest (oldestKey, oldestTime))"

definition removeOldest :: "(string \<times> AggregatedEvent) list \<Rightarrow> (string \<times> AggregatedEvent) list" where
  "removeOldest aggregated =
     (let oldestKey = fst (oldest_scan aggregated ([], 0))
      in if oldestKey \<noteq> [] then AList.delete oldestKey aggregated else aggregated)"

text \<open>The part of \<^verbatim>\<open>AddEvent\<close> after the capacity check: the event is folded in.\<close>

definition foldEvent :: "Event \<Rightarrow> int \<Rightarrow> (string \<times> AggregatedEvent) list \<Rightarrow> (string \<times> AggregatedEvent) list" where
  "foldEvent event now aggregated =
     (let key = eventAggregationKey event in
      case map_of aggregated key of
        Some agg \<Rightarrow>
          AList.update key
            (agg\<lparr>ae_Count := ae_Count agg + ev_Count event,
                 ae_LastSeen := now,
                 ae_UniqueObjects :=
                   (if ev_InvolvedName event \<noteq> []
                    then AList.update (ev_InvolvedName event) True (ae_UniqueObjects agg)
                    else ae_UniqueObjects agg)\<rparr>)
            aggregated
      | None \<Rightarrow>
          AList.update key
            \<lparr>ae_Namespace = ev_Namespace event, ae_Reason = ev_Reason event,
             ae_Type = ev_Type event, ae_Kind = ev_InvolvedKind event,
             ae_Count = ev_Count event, ae_LastSeen = now,
             ae_FirstSeen = ev_FirstTimestamp event,
             ae_UniqueObjects =
               (if ev_InvolvedName event \<noteq> [] then [(ev_InvolvedName event, True)] else [])\<rparr>
            aggregated)"

fun AddEvent :: "Event option \<Rightarrow> int \<Rightarrow> EventAggregator \<Rightarrow> EventAggregator" where
  "AddEvent None now a = a"
| "AddEvent (Some event) now a =
     (let aggregated1 =
            (if int (length (ea_aggregated a)) \<ge> ea_maxEvents a
             then removeOldest (ea_aggregated a) else ea_aggregated a)
      in a\<lparr>ea_aggregated := foldEvent event now aggregated1\<rparr>)"

text \<open>
  \<^verbatim>\<open>cleanup\<close> of the event aggregator: the threshold is
  \<^verbatim>\<open>now.Add(-1 * time.Hour)\<close>, whatever the window size.
\<close>

definition event_cleanup :: "int \<Rightarrow> EventAggregator \<Rightarrow> EventAggregator" where
  "event_cleanup now a =
     (let threshold = now + (- 1 * Hour)
      in a\<lparr>ea_aggregated :=
             filter (\<lambda>(key, agg). \<not> ae_LastSeen agg < threshold) (ea_aggregated a)\<rparr>)"

text \<open>
  The states an event aggregator goes through: built by \<^verbatim>\<open>NewEventAggregator\<close>, then
  any number of \<^verbatim>\<open>AddEvent\<close> calls, with runs of the timer-driven \<^verbatim>\<open>cleanup\<close>
  between them. Between two calls the entries may be listed in any other order, since
  each \<^verbatim>\<open>range\<close> picks its own.
\<close>

inductive ea_reachable :: "EventAggregator \<Rightarrow> bool" where
  ea_new: "ea_reachable (NewEventAggregator windowSize maxEvents)"
| ea_add: "ea_reachable a \<Longrightarrow> ea_reachable (AddEvent event now a)"
| ea_cleanup: "ea_reachable a \<Longrightarrow> ea_reachable (event_cleanup now a)"
| ea_reorder: "ea_reachable a \<Longrightarrow> mset xs = mset (ea_aggregated a) \<Longrightarrow>
     ea_reachable (a\<lparr>ea_aggregated := xs\<rparr>)"

text \<open>
  The keys of a well-formed bucket map are pairwise distinct, and none is the empty string:
  every key is built by \<^verbatim>\<open>eventAggregationKey\<close>, which writes two slashes.
\<close>

definition ea_keys_ok :: "(string \<times> AggregatedEvent) list \<Rightarrow> bool" where
  "ea_keys_ok xs = (distinct (map fst xs) \<and> [] \<notin> fst ` set xs)"

section \<open>Attribute trees and numbers\<close>

text \<open>
  A \<^verbatim>\<open>float64\<close>: a finite value is given by the real number it denotes. Only
  conversions and \<^verbatim>\<open>count++\<close> produce floats here, so no other arithmetic is needed.
\<close>

datatype float64 = Finite real | PosInf | NegInf | NaN

fun bit_length :: "nat \<Rightarrow> nat" where
  "bit_length n = (if n = 0 then 0 else Suc (bit_length (n div 2)))"

declare bit_length.simps [simp del]

text \<open>
  The conversion \<^verbatim>\<open>float64(v)\<close> of an integer: exact up to \<open>2 ^ 53\<close>, beyond that
  rounded to 53 significant bits, ties to even.
\<close>

definition round53 :: "int \<Rightarrow> int" where
  "round53 v =
     (let a = nat \<bar>v\<bar>;
          e = bit_length a - 53;
          q = a div 2 ^ e;
          r = a mod 2 ^ e;
          q' = (if 2 * r > 2 ^ e \<or> (2 * r = 2 ^ e \<and> odd q) then q + 1 else q)
      in sgn v * int (q' * 2 ^ e))"

definition float64_of_int :: "int \<Rightarrow> float64" where
  "float64_of_int v =
     (if \<bar>v\<bar> \<le> 2 ^ 53 then Finite (of_int v) else Finite (of_int (round53 v)))"

text \<open>
  \<^verbatim>\<open>count++\<close> on a \<^verbatim>\<open>float64\<close> that holds a natural number: exact below
  \<open>2 ^ 53\<close>; at \<open>2 ^ 53\<close> the sum rounds back to \<open>2 ^ 53\<close>.
\<close>

fun f64_incr :: "float64 \<Rightarrow> float64" where
  "f64_incr (Finite x) = (if x < 2 ^ 53 then Finite (x + 1) else Finite x)"
| "f64_incr PosInf = PosInf"
| "f64_incr NegInf = NegInf"
| "f64_incr NaN = NaN"

text \<open>
  The content of an \<^verbatim>\<open>unstructured.Unstructured\<close> is JSON-compatible: its values are
  \<^verbatim>\<open>nil\<close>, \<^verbatim>\<open>bool\<close>, \<^verbatim>\<open>string\<close>, \<^verbatim>\<open>int64\<close>, \<^verbatim>\<open>float64\<close>,
  \<^verbatim>\<open>map[string]any\<close> and \<^verbatim>\<open>[]any\<close>. On such content the deep copy made by
  \<^verbatim>\<open>NestedMap\<close> and \<^verbatim>\<open>NestedSlice\<close> returns an equal tree.
\<close>

datatype json =
    JNull
  | JBool bool
  | JString string
  | JInt64 int
  | JFloat64 float64
  | JMap "(string \<times> json) list"
  | JSlice "json list"

type_synonym object = "(string \<times> json) list"

text \<open>
  A value of type \<^verbatim>\<open>any\<close> as \<^verbatim>\<open>toFloat64\<close> may receive it: a value of a tree, or one
  of the other dynamic types its type switch names. A \<^verbatim>\<open>float32\<close> is given by its value.
\<close>

datatype any =
    Tree json
  | AFloat32 float64
  | AInt int
  | AInt32 int
  | AUint int
  | AUint32 int
  | AUint64 int
  | AOther

text \<open>
  \<^verbatim>\<open>strconv.ParseFloat(s, 64)\<close> belongs to the Go library; its grammar is not modelled
  and it is an argument \<open>pf\<close> of every function that converts. Its outcome is a parsed
  value, a syntax error (with which it returns \<open>0\<close>) or a range error (with which it
  returns an infinity of the sign of the number read).
\<close>

datatype parse_result = Parsed float64 | ErrSyntax | ErrRange bool

fun parsed_value :: "parse_result \<Rightarrow> float64" where
  "parsed_value (Parsed f) = f"
| "parsed_value ErrSyntax = Finite 0"
| "parsed_value (ErrRange negative) = (if negative then NegInf else PosInf)"

fun toFloat64 :: "(string \<Rightarrow> parse_result) \<Rightarrow> any \<Rightarrow> float64" where
  "toFloat64 pf (Tree (JFloat64 v)) = v"
| "toFloat64 pf (AFloat32 v) = v"
| "toFloat64 pf (AInt v) = float64_of_int v"
| "toFloat64 pf (AInt32 v) = float64_of_int v"
| "toFloat64 pf (Tree (JInt64 v)) = float64_of_int v"
| "toFloat64 pf (AUint v) = float64_of_int v"
| "toFloat64 pf (AUint32 v) = float64_of_int v"
| "toFloat64 pf (AUint64 v) = float64_of_int v"
| "toFloat64 pf (Tree (JBool v)) = (if v then Finite 1 else Finite 0)"
| "toFloat64 pf (Tree (JString v)) = parsed_value (pf v)"
| "toFloat64 pf _ = Finite 0"

section \<open>Path extractor\<close>

text \<open>\<^verbatim>\<open>strings.Split(s, sep)\<close> for a separator of one character.\<close>

fun Split :: "string \<Rightarrow> char \<Rightarrow> string list" where
  "Split [] sep = [[]]"
| "Split (c # cs) sep =
     (if c = sep then [] # Split cs sep
      else (case Split cs sep of
              [] \<Rightarrow> [[c]]
            | part # parts \<Rightarrow> (c # part) # parts))"

datatype 'a lookup = Found 'a | NotFound | AccessErr

text \<open>
  The accessors of package \<^verbatim>\<open>unstructured\<close>. \<^verbatim>\<open>NestedFieldNoCopy\<close> walks the
  fields: a \<^verbatim>\<open>nil\<close> value or a missing key is "not found", any other value that is not
  a map is an error.
\<close>

fun NestedFieldNoCopy :: "json \<Rightarrow> string list \<Rightarrow> json lookup" where
  "NestedFieldNoCopy val [] = Found val"
| "NestedFieldNoCopy val (field # rest) =
     (case val of
        JNull \<Rightarrow> NotFound
      | JMap m \<Rightarrow>
          (case map_of m field of
             None \<Rightarrow> NotFound
           | Some val' \<Rightarrow> NestedFieldNoCopy val' rest)
      | _ \<Rightarrow> AccessErr)"

definition NestedString :: "object \<Rightarrow> string list \<Rightarrow> string lookup" where
  "NestedString obj path =
     (case NestedFieldNoCopy (JMap obj) path of
        Found (JString s) \<Rightarrow> Found s
      | Found _ \<Rightarrow> AccessErr
      | NotFound \<Rightarrow> NotFound
      | AccessErr \<Rightarrow> AccessErr)"

definition NestedMap :: "object \<Rightarrow> string list \<Rightarrow> (string \<times> json) list lookup" where
  "NestedMap obj path =
     (case NestedFieldNoCopy (JMap obj) path of
        Found (JMap m) \<Rightarrow> Found m
      | Found _ \<Rightarrow> AccessErr
      | NotFound \<Rightarrow> NotFound
      | AccessErr \<Rightarrow> AccessErr)"

definition NestedSlice :: "object \<Rightarrow> string list \<Rightarrow> json list lookup" where
  "NestedSlice obj path =
     (case NestedFieldNoCopy (JMap obj) path of
        Found (JSlice xs) \<Rightarrow> Found xs
      | Found _ \<Rightarrow> AccessErr
      | NotFound \<Rightarrow> NotFound
      | AccessErr \<Rightarrow> AccessErr)"

definition getNestedString :: "object \<Rightarrow> string list \<Rightarrow> string" where
  "getNestedString obj path = (case NestedString obj path of Found s \<Rightarrow> s | _ \<Rightarrow> [])"

definition GetNamespace :: "object \<Rightarrow> string" where
  "GetNamespace obj = getNestedString obj [''metadata'', ''namespace'']"

definition GetName :: "object \<Rightarrow> string" where
  "GetName obj = getNestedString obj [''metadata'', ''name'']"

definition extractFieldString :: "object \<Rightarrow> string \<Rightarrow> string" where
  "extractFieldString obj path =
     (if path = [] then []
      else (case NestedString obj (Split path CHR ''.'') of Found value \<Rightarrow> value | _ \<Rightarrow> []))"

definition extractFieldFloat :: "(string \<Rightarrow> parse_result) \<Rightarrow> object \<Rightarrow> string \<Rightarrow> float64" where
  "extractFieldFloat pf obj path =
     (if path = [] then Finite 0
      else (case NestedFieldNoCopy (JMap obj) (Split path CHR ''.'') of
              Found value \<Rightarrow> toFloat64 pf (Tree value)
            | _ \<Rightarrow> Finite 0))"

text \<open>A \<^verbatim>\<open>nil\<close> map or slice is \<open>None\<close>.\<close>

definition extractFieldMap :: "object \<Rightarrow> string \<Rightarrow> (string \<times> json) list option" where
  "extractFieldMap obj path =
     (if path = [] then None
      else (case NestedMap obj (Split path CHR ''.'') of Found value \<Rightarrow> Some value | _ \<Rightarrow> None))"

definition extractFieldSlice :: "object \<Rightarrow> string \<Rightarrow> json list option" where
  "extractFieldSlice obj path =
     (if path = [] then None
      else (case NestedSlice obj (Split path CHR ''.'') of Found value \<Rightarrow> Some value | _ \<Rightarrow> None))"

text \<open>
  \<^verbatim>\<open>sanitizeName\<close> maps over the runes of the name; names are ASCII text here, one
  character for each rune.
\<close>

definition toLowerChar :: "char \<Rightarrow> char" where
  "toLowerChar c =
     (case map_of (zip ''ABCDEFGHIJKLMNOPQRSTUVWXYZ'' ''abcdefghijklmnopqrstuvwxyz'') c of
        Some l \<Rightarrow> l
      | None \<Rightarrow> c)"

definition sanitizeName :: "string \<Rightarrow> string" where
  "sanitizeName name =
     map toLowerChar
       (map (\<lambda>r. if (CHR ''a'' \<le> r \<and> r \<le> CHR ''z'') \<or> (CHR ''A'' \<le> r \<and> r \<le> CHR ''Z'')
                     \<or> (CHR ''0'' \<le> r \<and> r \<le> CHR ''9'') \<or> r = CHR ''_''
                  then r else CHR ''_'') name)"

definition getSortedKeys :: "(string \<times> string) list \<Rightarrow> string list" where
  "getSortedKeys m = sort (map fst m)"

definition getSortedValues :: "(string \<times> string) list \<Rightarrow> string list" where
  "getSortedValues m = map (\<lambda>k. case map_of m k of Some v \<Rightarrow> v | None \<Rightarrow> []) (getSortedKeys m)"

section \<open>Configurable collector\<close>

record ConditionConfig =
  cond_TypeField :: string
  cond_StatusField :: string
  cond_ReasonField :: string

record MetricConfig =
  mc_Type :: string
  mc_Name :: string
  mc_Help :: string
  mc_Path :: string
  mc_ValuePath :: string
  mc_KeyLabel :: string
  mc_ValueLabel :: string
  mc_Labels :: "(string \<times> string) list"
  mc_Condition :: "ConditionConfig option"

text \<open>The fields of \<^verbatim>\<open>CRDConfig\<close> that the collector reads.\<close>

record CRDConfig =
  crd_Name :: string
  crd_CommonLabels :: "(string \<times> string) list"
  crd_Metrics :: "MetricConfig list"

text \<open>
  A descriptor and a metric of the Prometheus client, as the values handed to it.
  \<^verbatim>\<open>NewDesc\<close> and \<^verbatim>\<open>MustNewConstMetric\<close> validate names and label counts inside
  the client; that validation is not part of this development.
\<close>

record Desc =
  d_fqName :: string
  d_help :: string
  d_variableLabels :: "string list"

record Metric =
  m_desc :: Desc
  m_value :: float64
  m_labelValues :: "string list"

definition BuildFQName :: "string \<Rightarrow> string \<Rightarrow> string \<Rightarrow> string" where
  "BuildFQName namespace subsystem name =
     (if name = [] then []
      else (if namespace \<noteq> [] then namespace @ ''_'' else [])
         @ (if subsystem \<noteq> [] then subsystem @ ''_'' else [])
         @ name)"

definition NewDesc :: "string \<Rightarrow> string \<Rightarrow> string list \<Rightarrow> Desc" where
  "NewDesc fqName help variableLabels =
     \<lparr>d_fqName = fqName, d_help = help, d_variableLabels = variableLabels\<rparr>"

definition MustNewConstMetric :: "Desc \<Rightarrow> float64 \<Rightarrow> string list \<Rightarrow> Metric" where
  "MustNewConstMetric desc value labelValues =
     \<lparr>m_desc = desc, m_value = value, m_labelValues = labelValues\<rparr>"

text \<open>What the collector writes to its logger: level, message, fields.\<close>

datatype log_level = DebugLevel | WarnLevel

type_synonym log_entry = "log_level \<times> string \<times> (string \<times> string) list"

record ConfigurableCollector =
  cc_log :: "log_entry list"
  cc_crdConfig :: CRDConfig
  cc_metricPrefix :: string
  cc_resources :: "(string \<times> object) list"
  cc_descriptors :: "(string \<times> Desc) list"

definition getCommonLabelNames :: "ConfigurableCollector \<Rightarrow> string list" where
  "getCommonLabelNames c = getSortedKeys (crd_CommonLabels (cc_crdConfig c))"

text \<open>
  The type switch of \<^verbatim>\<open>initMetrics\<close>: the label names of the descriptor, or \<open>None\<close>
  in the \<^verbatim>\<open>default\<close> branch.
\<close>

definition descriptorLabelNames :: "string list \<Rightarrow> MetricConfig \<Rightarrow> string list option" where
  "descriptorLabelNames commonLabelNames metricCfg =
     (if mc_Type metricCfg = ''info'' then
        Some (commonLabelNames @ getSortedKeys (mc_Labels metricCfg))
      else if mc_Type metricCfg = ''count'' then
        Some [if mc_ValueLabel metricCfg = [] then ''value'' else mc_ValueLabel metricCfg]
      else if mc_Type metricCfg = ''gauge'' then
        Some commonLabelNames
      else if mc_Type metricCfg = ''map_state'' then
        Some (commonLabelNames @ [mc_KeyLabel metricCfg, ''state''])
      else if mc_Type metricCfg = ''map_gauge'' then
        Some (commonLabelNames @ [mc_KeyLabel metricCfg])
      else if mc_Type metricCfg = ''conditions'' then
        Some (commonLabelNames @ [''type'', ''status'', ''reason''])
      else None)"

text \<open>One turn of the loop of \<^verbatim>\<open>initMetrics\<close>.\<close>

definition initMetric ::
  "string \<Rightarrow> string list \<Rightarrow> MetricConfig \<Rightarrow> ConfigurableCollector \<Rightarrow> ConfigurableCollector" where
  "initMetric prefix commonLabelNames metricCfg c =
     (let metricName = BuildFQName prefix [] (mc_Name metricCfg) in
      case descriptorLabelNames commonLabelNames metricCfg of
        None \<Rightarrow>
          c\<lparr>cc_log := cc_log c
                @ [(WarnLevel, ''Unknown metric type'', [(''type'', mc_Type metricCfg)])]\<rparr>
      | Some labelNames \<Rightarrow>
          c\<lparr>cc_descriptors :=
               AList.update (mc_Name metricCfg)
                 (NewDesc metricName (mc_Help metricCfg) labelNames) (cc_descriptors c)\<rparr>)"

definition initMetrics :: "ConfigurableCollector \<Rightarrow> ConfigurableCollector" where
  "initMetrics c =
     (let prefix =
            (if cc_metricPrefix c \<noteq> []
             then cc_metricPrefix c @ ''_'' @ sanitizeName (crd_Name (cc_crdConfig c))
             else sanitizeName (crd_Name (cc_crdConfig c)));
          commonLabelNames = getCommonLabelNames c
      in fold (initMetric prefix commonLabelNames) (crd_Metrics (cc_crdConfig c)) c)"

definition NewConfigurableCollector :: "CRDConfig \<Rightarrow> string \<Rightarrow> ConfigurableCollector" where
  "NewConfigurableCollector crdConfig metricPrefix =
     initMetrics
       \<lparr>cc_log = [], cc_crdConfig = crdConfig, cc_metricPrefix = metricPrefix,
        cc_resources = [], cc_descriptors = []\<rparr>"

definition GetMetricDescriptors :: "ConfigurableCollector \<Rightarrow> Desc list" where
  "GetMetricDescriptors c = map snd (cc_descriptors c)"

subsection \<open>Event handlers\<close>

definition handleAdd :: "object \<Rightarrow> ConfigurableCollector \<Rightarrow> ConfigurableCollector" where
  "handleAdd obj c =
     (let key = GetNamespace obj @ ''/'' @ GetName obj in
      c\<lparr>cc_resources := AList.update key obj (cc_resources c),
        cc_log := cc_log c
          @ [(DebugLevel, ''Resource added'',
              [(''namespace'', GetNamespace obj), (''name'', GetName obj)])]\<rparr>)"

definition handleUpdate :: "object \<Rightarrow> object \<Rightarrow> ConfigurableCollector \<Rightarrow> ConfigurableCollector" where
  "handleUpdate oldObj newObj c = handleAdd newObj c"

definition handleDelete :: "object \<Rightarrow> ConfigurableCollector \<Rightarrow> ConfigurableCollector" where
  "handleDelete obj c =
     (let key = GetNamespace obj @ ''/'' @ GetName obj in
      c\<lparr>cc_resources := AList.delete key (cc_resources c),
        cc_log := cc_log c
          @ [(DebugLevel, ''Resource deleted'',
              [(''namespace'', GetNamespace obj), (''name'', GetName obj)])]\<rparr>)"

text \<open>
  The calls the informer makes, and for each the sections it runs while holding the write
  lock \<^verbatim>\<open>c.mu\<close>: \<^verbatim>\<open>handleUpdate\<close> calls \<^verbatim>\<open>handleAdd\<close>, which locks once. A
  reader, which takes the read lock, sees the cache before the first section or after any
  one of them, and in no other state.
\<close>

datatype handler_call = OnAdd object | OnUpdate object object | OnDelete object

fun locked_sections :: "handler_call \<Rightarrow> (ConfigurableCollector \<Rightarrow> ConfigurableCollector) list" where
  "locked_sections (OnAdd obj) = [handleAdd obj]"
| "locked_sections (OnUpdate oldObj newObj) = [handleUpdate oldObj newObj]"
| "locked_sections (OnDelete obj) = [handleDelete obj]"

fun states_after :: "(ConfigurableCollector \<Rightarrow> ConfigurableCollector) list \<Rightarrow> ConfigurableCollector
    \<Rightarrow> ConfigurableCollector list" where
  "states_after [] c = []"
| "states_after (f # fs) c = f c # states_after fs (f c)"

definition visible_states :: "handler_call list \<Rightarrow> ConfigurableCollector \<Rightarrow> ConfigurableCollector list" where
  "visible_states calls c = c # states_after (concat (map locked_sections calls)) c"

subsection \<open>Metric type strategies\<close>

definition extractCommonLabels :: "ConfigurableCollector \<Rightarrow> object \<Rightarrow> string list" where
  "extractCommonLabels c obj =
     map (extractFieldString obj) (getSortedValues (crd_CommonLabels (cc_crdConfig c)))"

definition collectInfoMetric :: "Desc \<Rightarrow> object \<Rightarrow> MetricConfig \<Rightarrow> string list \<Rightarrow> Metric list" where
  "collectInfoMetric desc obj cfg commonLabels =
     [MustNewConstMetric desc (Finite 1)
        (commonLabels @ map (extractFieldString obj) (getSortedValues (mc_Labels cfg)))]"

text \<open>The first loop of \<^verbatim>\<open>collectCountMetric\<close>, which fills \<^verbatim>\<open>valueCounts\<close>.\<close>

fun countValues :: "string \<Rightarrow> (string \<times> object) list \<Rightarrow> (string \<times> float64) list
    \<Rightarrow> (string \<times> float64) list" where
  "countValues path [] valueCounts = valueCounts"
| "countValues path ((key, obj) # rest) valueCounts =
     (let value = extractFieldString obj path in
      if value \<noteq> [] then
        countValues path rest
          (AList.update value
             (f64_incr (case map_of valueCounts value of Some n \<Rightarrow> n | None \<Rightarrow> Finite 0))
             valueCounts)
      else countValues path rest valueCounts)"

definition collectCountMetric :: "Desc \<Rightarrow> MetricConfig \<Rightarrow> (string \<times> object) list \<Rightarrow> Metric list" where
  "collectCountMetric desc cfg resources =
     map (\<lambda>(value, count). MustNewConstMetric desc count [value])
       (countValues (mc_Path cfg) resources [])"

definition collectGaugeMetric ::
  "(string \<Rightarrow> parse_result) \<Rightarrow> Desc \<Rightarrow> object \<Rightarrow> MetricConfig \<Rightarrow> string list \<Rightarrow> Metric list" where
  "collectGaugeMetric pf desc obj cfg commonLabels =
     [MustNewConstMetric desc (extractFieldFloat pf obj (mc_Path cfg)) commonLabels]"

text \<open>
  \<^verbatim>\<open>s, _ := m[k].(string)\<close>: the string under the key, and the empty string when the
  key is missing or holds a value that is not a string.
\<close>

fun stringAt :: "(string \<times> json) list \<Rightarrow> string \<Rightarrow> string" where
  "stringAt m k = (case map_of m k of Some (JString s) \<Rightarrow> s | _ \<Rightarrow> [])"

text \<open>
  The range loops over \<^verbatim>\<open>mapData\<close> and \<^verbatim>\<open>conditions\<close>; ranging over \<^verbatim>\<open>nil\<close>
  visits nothing.
\<close>

definition entries_of :: "'a list option \<Rightarrow> 'a list" where
  "entries_of r = (case r of None \<Rightarrow> [] | Some xs \<Rightarrow> xs)"

definition mapStateEntry :: "Desc \<Rightarrow> MetricConfig \<Rightarrow> string list \<Rightarrow> string \<times> json \<Rightarrow> Metric list" where
  "mapStateEntry desc cfg commonLabels entry =
     (case snd entry of
        JMap entryMap \<Rightarrow>
          (let currentState = stringAt entryMap (mc_ValuePath cfg) in
           if currentState = [] then []
           else [MustNewConstMetric desc (Finite 1) (commonLabels @ [fst entry, currentState])])
      | _ \<Rightarrow> [])"

definition collectMapStateMetric :: "Desc \<Rightarrow> object \<Rightarrow> MetricConfig \<Rightarrow> string list \<Rightarrow> Metric list" where
  "collectMapStateMetric desc obj cfg commonLabels =
     concat (map (mapStateEntry desc cfg commonLabels)
       (entries_of (extractFieldMap obj (mc_Path cfg))))"

definition mapGaugeEntry ::
  "(string \<Rightarrow> parse_result) \<Rightarrow> Desc \<Rightarrow> MetricConfig \<Rightarrow> string list \<Rightarrow> string \<times> json \<Rightarrow> Metric list" where
  "mapGaugeEntry pf desc cfg commonLabels entry =
     (case snd entry of
        JMap entryMap \<Rightarrow>
          (let value = (case map_of entryMap (mc_ValuePath cfg) of
                          Some rawValue \<Rightarrow> toFloat64 pf (Tree rawValue)
                        | None \<Rightarrow> Finite 0)
           in [MustNewConstMetric desc value (commonLabels @ [fst entry])])
      | _ \<Rightarrow> [])"

definition collectMapGaugeMetric ::
  "(string \<Rightarrow> parse_result) \<Rightarrow> Desc \<Rightarrow> object \<Rightarrow> MetricConfig \<Rightarrow> string list \<Rightarrow> Metric list" where
  "collectMapGaugeMetric pf desc obj cfg commonLabels =
     concat (map (mapGaugeEntry pf desc cfg commonLabels)
       (entries_of (extractFieldMap obj (mc_Path cfg))))"

text \<open>
  \<^verbatim>\<open>strings.EqualFold(s, "true")\<close>. No rune outside ASCII folds to a letter of
  \<^verbatim>\<open>"true"\<close>, so the comparison is one of bytes with the ASCII capitals lowered.
\<close>

definition EqualFold_true :: "string \<Rightarrow> bool" where
  "EqualFold_true s = (map toLowerChar s = ''true'')"

definition conditionFields :: "MetricConfig \<Rightarrow> string \<times> string \<times> string" where
  "conditionFields cfg =
     (case mc_Condition cfg of
        None \<Rightarrow> (''type'', ''status'', ''reason'')
      | Some cond \<Rightarrow>
          (if cond_TypeField cond \<noteq> [] then cond_TypeField cond else ''type'',
           if cond_StatusField cond \<noteq> [] then cond_StatusField cond else ''status'',
           if cond_ReasonField cond \<noteq> [] then cond_ReasonField cond else ''reason''))"

definition conditionEntry :: "Desc \<Rightarrow> MetricConfig \<Rightarrow> string list \<Rightarrow> json \<Rightarrow> Metric list" where
  "conditionEntry desc cfg commonLabels condData =
     (case conditionFields cfg of (typeField, statusField, reasonField) \<Rightarrow>
      case condData of
        JMap condMap \<Rightarrow>
          (let condType = stringAt condMap typeField;
               condStatus = stringAt condMap statusField;
               condReason = stringAt condMap reasonField
           in if condType = [] then []
              else [MustNewConstMetric desc
                      (if EqualFold_true condStatus then Finite 1 else Finite 0)
                      (commonLabels @ [condType, condStatus, condReason])])
      | _ \<Rightarrow> [])"

definition collectConditionsMetric :: "Desc \<Rightarrow> object \<Rightarrow> MetricConfig \<Rightarrow> string list \<Rightarrow> Metric list" where
  "collectConditionsMetric desc obj cfg commonLabels =
     concat (map (conditionEntry desc cfg commonLabels)
       (entries_of (extractFieldSlice obj (mc_Path cfg))))"

subsection \<open>Collection\<close>

text \<open>The body of the inner loop of the first pass of \<^verbatim>\<open>collect\<close>.\<close>

definition collectResourceMetric ::
  "(string \<Rightarrow> parse_result) \<Rightarrow> ConfigurableCollector \<Rightarrow> object \<Rightarrow> string list \<Rightarrow> MetricConfig
    \<Rightarrow> Metric list" where
  "collectResourceMetric pf c obj commonLabels metricCfg =
     (case map_of (cc_descriptors c) (mc_Name metricCfg) of
        None \<Rightarrow> []
      | Some desc \<Rightarrow>
          (if mc_Type metricCfg = ''info'' then
             collectInfoMetric desc obj metricCfg commonLabels
           else if mc_Type metricCfg = ''gauge'' then
             collectGaugeMetric pf desc obj metricCfg commonLabels
           else if mc_Type metricCfg = ''map_state'' then
             collectMapStateMetric desc obj metricCfg commonLabels
           else if mc_Type metricCfg = ''map_gauge'' then
             collectMapGaugeMetric pf desc obj metricCfg commonLabels
           else if mc_Type metricCfg = ''conditions'' then
             collectConditionsMetric desc obj metricCfg commonLabels
           else []))"

text \<open>The body of the loop of the second pass.\<close>

definition collectAggregateMetric :: "ConfigurableCollector \<Rightarrow> MetricConfig \<Rightarrow> Metric list" where
  "collectAggregateMetric c metricCfg =
     (if mc_Type metricCfg \<noteq> ''count'' then []
      else (case map_of (cc_descriptors c) (mc_Name metricCfg) of
              None \<Rightarrow> []
            | Some desc \<Rightarrow> collectCountMetric desc metricCfg (cc_resources c)))"

text \<open>\<^verbatim>\<open>collect\<close>: the metrics sent to the channel, in the order sent.\<close>

definition collect :: "(string \<Rightarrow> parse_result) \<Rightarrow> ConfigurableCollector \<Rightarrow> Metric list" where
  "collect pf c =
     concat (map (\<lambda>(key, obj).
         (let commonLabels = extractCommonLabels c obj in
          concat (map (collectResourceMetric pf c obj commonLabels)
            (crd_Metrics (cc_crdConfig c)))))
       (cc_resources c))
     @ concat (map (collectAggregateMetric c) (crd_Metrics (cc_crdConfig c)))"

section \<open>Notions used in the statements\<close>

text \<open>
  The state of a map entry as \<^verbatim>\<open>collectMapStateMetric\<close> reads it, and a field of a
  condition element as \<^verbatim>\<open>collectConditionsMetric\<close> reads it: the empty string unless
  the value is a map that holds a string under the key.
\<close>

definition entryState :: "string \<Rightarrow> json \<Rightarrow> string" where
  "entryState valuePath entryData =
     (case entryData of JMap entryMap \<Rightarrow> stringAt entryMap valuePath | _ \<Rightarrow> [])"

definition conditionField :: "string \<Rightarrow> json \<Rightarrow> string" where
  "conditionField field condData =
     (case condData of JMap condMap \<Rightarrow> stringAt condMap field | _ \<Rightarrow> [])"

text \<open>The values found at the path, one for each cached object, in cache order.\<close>

definition discoveredValues :: "string \<Rightarrow> (string \<times> object) list \<Rightarrow> string list" where
  "discoveredValues path resources = map (\<lambda>(key, obj). extractFieldString obj path) resources"

text \<open>The six metric types that the type switch of \<^verbatim>\<open>initMetrics\<close> names.\<close>

definition metricTypes :: "string list" where
  "metricTypes = [''info'', ''count'', ''gauge'', ''map_state'', ''map_gauge'', ''conditions'']"

section \<open>Example inputs\<close>

definition pod0 :: Pod where
  "pod0 = \<lparr>pod_Namespace = ''default'', pod_Name = ''web-0'', pod_Phase = ''Running'',
           pod_Conditions = [(''Ready'', ''True'')]\<rparr>"

definition podagg0 :: PodAggregator where
  "podagg0 = AddPod (Some pod0) 0 (NewPodAggregator 60000000000)"

definition podbucket0 :: AggregatedPod where
  "podbucket0 = \<lparr>ap_Namespace = ''default'', ap_Phase = ''Running'', ap_Count = 1,
                 ap_LastSeen = 0, ap_Pods = [(''web-0'', True)]\<rparr>"

definition ev0 :: Event where
  "ev0 = \<lparr>ev_Namespace = ''default'', ev_Reason = ''BackOff'', ev_Type = ''Warning'',
          ev_Count = 1, ev_InvolvedKind = ''Pod'', ev_InvolvedName = ''web-0'',
          ev_FirstTimestamp = 0\<rparr>"

definition ev1 :: Event where
  "ev1 = \<lparr>ev_Namespace = ''default'', ev_Reason = ''Failed'', ev_Type = ''Warning'',
          ev_Count = 2, ev_InvolvedKind = ''Pod'', ev_InvolvedName = ''db-0'',
          ev_FirstTimestamp = 5\<rparr>"

definition evagg0 :: EventAggregator where
  "evagg0 = AddEvent (Some ev0) 0 (NewEventAggregator 60000000000 100)"

definition evbucket0 :: AggregatedEvent where
  "evbucket0 = \<lparr>ae_Namespace = ''default'', ae_Reason = ''BackOff'', ae_Type = ''Warning'',
                ae_Kind = ''Pod'', ae_Count = 1, ae_LastSeen = 0, ae_FirstSeen = 0,
                ae_UniqueObjects = [(''web-0'', True)]\<rparr>"

definition evfull :: EventAggregator where
  "evfull = AddEvent (Some ev0) 0 (NewEventAggregator 60000000000 1)"

definition objOld :: object where
  "objOld = [(''metadata'', JMap [(''namespace'', JString ''default''), (''name'', JString ''app'')]),
             (''status'', JMap [(''phase'', JString ''Pending'')])]"

definition objNew :: object where
  "objNew = [(''metadata'', JMap [(''namespace'', JString ''default''), (''name'', JString ''app'')]),
             (''status'', JMap [(''phase'', JString ''Running'')])]"

definition emptyCollector :: ConfigurableCollector where
  "emptyCollector = NewConfigurableCollector
      \<lparr>crd_Name = ''app'', crd_CommonLabels = [], crd_Metrics = []\<rparr> ''sealos''"

text \<open>
  \<^verbatim>\<open>strconv.ParseFloat\<close> on the strings used below: \<open>2.5\<close> is a number, \<open>1e999\<close> is a
  number beyond the largest \<^verbatim>\<open>float64\<close>, the others are not numbers.
\<close>

definition ParseFloat_sample :: "string \<Rightarrow> parse_result" where
  "ParseFloat_sample s =
     (if s = ''2.5'' then Parsed (Finite 2.5)
      else if s = ''1e999'' then ErrRange False
      else ErrSyntax)"

definition descState :: Desc where
  "descState = NewDesc ''sealos_app_component_phase'' ''Component phase'' [''name'', ''component'', ''state'']"

definition cfgState :: MetricConfig where
  "cfgState = \<lparr>mc_Type = ''map_state'', mc_Name = ''component_phase'', mc_Help = ''Component phase'',
     mc_Path = ''status.components'', mc_ValuePath = ''phase'', mc_KeyLabel = ''component'',
     mc_ValueLabel = [], mc_Labels = [], mc_Condition = None\<rparr>"

definition objComponents :: object where
  "objComponents =
     [(''metadata'', JMap [(''name'', JString ''app'')]),
      (''status'', JMap [(''components'', JMap
         [(''web'', JMap [(''phase'', JString ''Running''), (''replicas'', JInt64 3)]),
          (''db'', JMap [(''phase'', JString [])]),
          (''cache'', JMap [(''replicas'', JString ''2.5'')]),
          (''note'', JString ''text'')])])]"

definition descGauge :: Desc where
  "descGauge = NewDesc ''sealos_app_component_replicas'' ''Component replicas'' [''name'', ''component'']"

definition cfgGauge :: MetricConfig where
  "cfgGauge = \<lparr>mc_Type = ''map_gauge'', mc_Name = ''component_replicas'',
     mc_Help = ''Component replicas'', mc_Path = ''status.components'', mc_ValuePath = ''replicas'',
     mc_KeyLabel = ''component'', mc_ValueLabel = [], mc_Labels = [], mc_Condition = None\<rparr>"

definition descCond :: Desc where
  "descCond = NewDesc ''sealos_app_condition'' ''Resource conditions'' [''name'', ''type'', ''status'', ''reason'']"

definition cfgCond :: MetricConfig where
  "cfgCond = \<lparr>mc_Type = ''conditions'', mc_Name = ''condition'', mc_Help = ''Resource conditions'',
     mc_Path = ''status.conditions'', mc_ValuePath = [], mc_KeyLabel = [], mc_ValueLabel = [],
     mc_Labels = [], mc_Condition = None\<rparr>"

definition objConditions :: object where
  "objConditions =
     [(''metadata'', JMap [(''name'', JString ''app'')]),
      (''status'', JMap [(''conditions'', JSlice
         [JMap [(''type'', JString ''Ready''), (''status'', JString ''TRUE''), (''reason'', JString ''Up'')],
          JMap [(''type'', JString ''Progressing''), (''status'', JString ''False'')],
          JMap [(''type'', JString ''Synced'')],
          JMap [(''status'', JString ''True'')],
          JMap [(''type'', JString []), (''status'', JString ''True'')]])])]"

definition phaseObject :: "string \<Rightarrow> string \<Rightarrow> object" where
  "phaseObject name phase =
     [(''metadata'', JMap [(''name'', JString name)]),
      (''status'', JMap [(''phase'', JString phase)])]"

definition cachePhases :: "(string \<times> object) list" where
  "cachePhases =
     [(''/resource-1'', phaseObject ''resource-1'' ''Running''),
      (''/resource-2'', phaseObject ''resource-2'' ''Pending''),
      (''/resource-3'', phaseObject ''resource-3'' ''Running''),
      (''/resource-4'', phaseObject ''resource-4'' []),
      (''/resource-5'', phaseObject ''resource-5'' ''Failed''),
      (''/resource-6'', phaseObject ''resource-6'' ''Pending''),
      (''/resource-7'', phaseObject ''resource-7'' ''Running'')]"

definition descCount :: Desc where
  "descCount = NewDesc ''sealos_app_phase_count'' ''Count of resources by phase'' [''phase'']"

definition cfgCount :: MetricConfig where
  "cfgCount = \<lparr>mc_Type = ''count'', mc_Name = ''phase_count'',
     mc_Help = ''Count of resources by phase'', mc_Path = ''status.phase'', mc_ValuePath = [],
     mc_KeyLabel = [], mc_ValueLabel = ''phase'', mc_Labels = [], mc_Condition = None\<rparr>"

text \<open>A definition with one metric of a type that the collector does not know.\<close>

definition cfgStatus :: MetricConfig where
  "cfgStatus = \<lparr>mc_Type = ''info'', mc_Name = ''status'', mc_Help = ''Application status'',
     mc_Path = [], mc_ValuePath = [], mc_KeyLabel = [], mc_ValueLabel = [],
     mc_Labels = [(''phase'', ''status.phase'')], mc_Condition = None\<rparr>"

definition cfgLatency :: MetricConfig where
  "cfgLatency = \<lparr>mc_Type = ''histogram'', mc_Name = ''latency'', mc_Help = ''Request latency'',
     mc_Path = ''status.latency'', mc_ValuePath = [], mc_KeyLabel = [], mc_ValueLabel = [],
     mc_Labels = [], mc_Condition = None\<rparr>"

definition crdUnknownType :: CRDConfig where
  "crdUnknownType = \<lparr>crd_Name = ''app'', crd_CommonLabels = [(''name'', ''metadata.name'')],
     crd_Metrics = [cfgLatency, cfgStatus]\<rparr>"

section \<open>Association lists\<close>

lemma map_of_filter_distinct:
  "distinct (map fst xs) \<Longrightarrow> map_of xs k = Some v \<Longrightarrow>
   map_of (filter P xs) k = (if P (k, v) then Some v else None)"
proof (induction xs)
  case Nil
  then show ?case by simp
next
  case (Cons x xs)
  obtain k' v' where x: "x = (k', v')" by (cases x)
  show ?case
  proof (cases "k' = k")
    case True
    with Cons.prems x have v: "v' = v" by simp
    from Cons.prems x True have "k \<notin> fst ` set xs" by auto
    then have "k \<notin> fst ` set (filter P xs)" by auto
    then have "map_of (filter P xs) k = None" by (simp add: map_of_eq_None_iff)
    with x True v show ?thesis by simp
  next
    case False
    with Cons x show ?thesis by simp
  qed
qed

lemma length_delete_distinct:
  "distinct (map fst xs) \<Longrightarrow> k \<in> fst ` set xs \<Longrightarrow> Suc (length (AList.delete k xs)) = length xs"
proof (induction xs)
  case Nil
  then show ?case by simp
next
  case (Cons x xs)
  show ?case
  proof (cases "fst x = k")
    case True
    with Cons.prems have "k \<notin> fst ` set xs" by auto
    then have "AList.delete k xs = xs" by simp
    with True show ?thesis by (cases x) simp
  next
    case False
    with Cons show ?thesis by (cases x) auto
  qed
qed

lemma length_update_le: "length (AList.update k v xs) \<le> Suc (length xs)"
  by (induction xs) auto

section \<open>Retention of idle buckets\<close>

lemma wrap64_id: "- (2 ^ 63) \<le> x \<Longrightarrow> x < 2 ^ 63 \<Longrightarrow> wrap64 x = x"
  unfolding wrap64_def by (simp add: mod_pos_pos_trivial)

lemma pod_threshold:
  assumes "0 < w" and "w < 2 ^ 62"
  shows "wrap64 (wrap64 (- w) * 2) = - (2 * w)"
proof -
  have a: "wrap64 (- w) = - w" using assms by (intro wrap64_id) auto
  have "wrap64 (- w * 2) = - w * 2" using assms by (intro wrap64_id) auto
  with a show ?thesis by simp
qed

text \<open>
  Claim C2 as the code has it. A bucket of the pod aggregator last touched at
  \<open>ap_LastSeen b\<close> survives every cleanup that runs at or before that time plus twice the
  window size, and is deleted by a cleanup that runs later. A bucket of the event
  aggregator instead survives every cleanup that runs at or before its last-seen time plus
  one hour and is deleted by a later one, whatever the window size.
\<close>

theorem cleanup_retention:
  assumes "distinct (map fst (pa_aggregated p))"
    and "0 < pa_windowSize p" and "pa_windowSize p < 2 ^ 62"
    and "map_of (pa_aggregated p) k = Some b"
    and "distinct (map fst (ea_aggregated e))"
    and "map_of (ea_aggregated e) k' = Some b'"
  shows "map_of (pa_aggregated (pod_cleanup now p)) k =
           (if ap_LastSeen b + 2 * pa_windowSize p < now then None else Some b)
       \<and> map_of (ea_aggregated (event_cleanup now e)) k' =
           (if ae_LastSeen b' + Hour < now then None else Some b')"
proof
  show "map_of (pa_aggregated (pod_cleanup now p)) k =
           (if ap_LastSeen b + 2 * pa_windowSize p < now then None else Some b)"
    using assms(1,4) pod_threshold [OF assms(2,3)]
    by (auto simp: pod_cleanup_def Let_def map_of_filter_distinct)
  show "map_of (ea_aggregated (event_cleanup now e)) k' =
           (if ae_LastSeen b' + Hour < now then None else Some b')"
    using assms(5,6)
    by (auto simp: event_cleanup_def Let_def map_of_filter_distinct)
qed

lemma podagg0_eq:
  "podagg0 = \<lparr>pa_windowSize = 60000000000, pa_aggregated = [(''default/Running'', podbucket0)],
              pa_abnormalPods = []\<rparr>"
  by (simp add: podagg0_def pod0_def podbucket0_def NewPodAggregator_def podAggregationKey_def
      trackAbnormal_def isPodAbnormal_def)

lemma evagg0_eq:
  "evagg0 = \<lparr>ea_windowSize = 60000000000, ea_maxEvents = 100,
             ea_aggregated = [(''default/BackOff/Pod'', evbucket0)]\<rparr>"
  by (simp add: evagg0_def ev0_def evbucket0_def NewEventAggregator_def foldEvent_def
      eventAggregationKey_def)

text \<open>
  With a window of one minute and both buckets last touched at time \<open>0\<close>: the pod bucket is
  kept by a cleanup after \<open>1.5\<close> windows and deleted by one after \<open>2.5\<close> windows; the
  event bucket is kept by a cleanup after one hour and deleted one nanosecond later.
\<close>

theorem cleanup_retention_witness:
  "map_of (pa_aggregated (pod_cleanup 90000000000 podagg0)) ''default/Running'' = Some podbucket0
   \<and> map_of (pa_aggregated (pod_cleanup 150000000000 podagg0)) ''default/Running'' = None
   \<and> map_of (ea_aggregated (event_cleanup 3600000000000 evagg0)) ''default/BackOff/Pod''
       = Some evbucket0
   \<and> map_of (ea_aggregated (event_cleanup 3600000000001 evagg0)) ''default/BackOff/Pod'' = None"
proof -
  have h1: "distinct (map fst (pa_aggregated podagg0))" by (simp add: podagg0_eq)
  have h2: "0 < pa_windowSize podagg0" by (simp add: podagg0_eq)
  have h3: "pa_windowSize podagg0 < 2 ^ 62" by (simp add: podagg0_eq)
  have h4: "map_of (pa_aggregated podagg0) ''default/Running'' = Some podbucket0"
    by (simp add: podagg0_eq)
  have h5: "distinct (map fst (ea_aggregated evagg0))" by (simp add: evagg0_eq)
  have h6: "map_of (ea_aggregated evagg0) ''default/BackOff/Pod'' = Some evbucket0"
    by (simp add: evagg0_eq)
  have w: "pa_windowSize podagg0 = 60000000000" "ap_LastSeen podbucket0 = 0"
    "ae_LastSeen evbucket0 = 0"
    by (simp_all add: podagg0_eq podbucket0_def evbucket0_def)
  from cleanup_retention [OF h1 h2 h3 h4 h5 h6, of 90000000000]
    cleanup_retention [OF h1 h2 h3 h4 h5 h6, of 150000000000]
    cleanup_retention [OF h1 h2 h3 h4 h5 h6, of 3600000000000]
    cleanup_retention [OF h1 h2 h3 h4 h5 h6, of 3600000000001]
  show ?thesis by (simp add: w Hour_def)
qed

text \<open>
  Claim C2 as stated fails for the event aggregator: with a window of one minute, a bucket
  last touched at time \<open>0\<close> is still present after the cleanup that runs \<open>2.5\<close> windows
  later.
\<close>

theorem event_cleanup_counterexample:
  "ea_windowSize evagg0 = 60000000000
   \<and> map_of (ea_aggregated evagg0) ''default/BackOff/Pod'' = Some evbucket0
   \<and> ae_LastSeen evbucket0 = 0
   \<and> map_of (ea_aggregated (event_cleanup 150000000000 evagg0)) ''default/BackOff/Pod''
       = Some evbucket0"
  by (simp add: evagg0_eq evbucket0_def event_cleanup_def Hour_def)

section \<open>Counting the members of a pod bucket\<close>

text \<open>
  Claim C3 at the input where the code departs from it: the same pod added twice to the
  same bucket. \<^verbatim>\<open>AddPod\<close> sets the count to the size of the member set before the
  insertion plus one, so the bucket ends with count \<open>2\<close> and one member.
\<close>

theorem AddPod_same_pod_twice:
  "map_of (pa_aggregated (AddPod (Some pod0) 1 (AddPod (Some pod0) 0 (NewPodAggregator 60000000000))))
     ''default/Running''
   = Some \<lparr>ap_Namespace = ''default'', ap_Phase = ''Running'', ap_Count = 2, ap_LastSeen = 1,
           ap_Pods = [(''web-0'', True)]\<rparr>"
  by (simp add: pod0_def NewPodAggregator_def podAggregationKey_def trackAbnormal_def
      isPodAbnormal_def)

section \<open>Capacity of the event aggregator\<close>

lemma eventAggregationKey_nonempty: "eventAggregationKey e \<noteq> []"
  by (simp add: eventAggregationKey_def)

lemma foldEvent_keys:
  "fst ` set (foldEvent e now xs) = insert (eventAggregationKey e) (fst ` set xs)"
  by (simp add: foldEvent_def Let_def AList.dom_update split: option.splits)

lemma foldEvent_distinct: "distinct (map fst xs) \<Longrightarrow> distinct (map fst (foldEvent e now xs))"
  by (simp add: foldEvent_def Let_def AList.distinct_update split: option.splits)

lemma foldEvent_length: "length (foldEvent e now xs) \<le> Suc (length xs)"
  by (simp add: foldEvent_def Let_def length_update_le split: option.splits)

lemma foldEvent_keys_ok: "ea_keys_ok xs \<Longrightarrow> ea_keys_ok (foldEvent e now xs)"
  using eventAggregationKey_nonempty [of e]
  by (auto simp: ea_keys_ok_def foldEvent_distinct foldEvent_keys simp del: set_map)

text \<open>What the scan of \<^verbatim>\<open>removeOldest\<close> returns once it holds a key.\<close>

lemma oldest_scan_spec:
  "k \<noteq> [] \<Longrightarrow> [] \<notin> fst ` set xs \<Longrightarrow> oldest_scan xs (k, t) = (k', t') \<Longrightarrow>
     k' \<noteq> [] \<and> t' \<le> t \<and> (\<forall>(key, agg) \<in> set xs. t' \<le> ae_LastSeen agg)
     \<and> ((k', t') = (k, t) \<or> (\<exists>agg. (k', agg) \<in> set xs \<and> ae_LastSeen agg = t'))"
proof (induction xs arbitrary: k t)
  case Nil
  then show ?case by simp
next
  case (Cons x xs)
  obtain key agg where x: "x = (key, agg)" by (cases x)
  from Cons.prems x have key: "key \<noteq> []" and rest: "[] \<notin> fst ` set xs" by auto
  show ?case
  proof (cases "ae_LastSeen agg < t")
    case True
    with Cons.prems x have "oldest_scan xs (key, ae_LastSeen agg) = (k', t')" by simp
    from Cons.IH [OF key rest this] True x show ?thesis by auto
  next
    case False
    with Cons.prems x have "oldest_scan xs (k, t) = (k', t')" by simp
    from Cons.IH [OF Cons.prems(1) rest this] False x show ?thesis by auto
  qed
qed

lemma oldest_scan_start:
  assumes "xs \<noteq> []" and "[] \<notin> fst ` set xs"
  shows "\<exists>k b. fst (oldest_scan xs ([], 0)) = k \<and> k \<noteq> [] \<and> (k, b) \<in> set xs
       \<and> (\<forall>(k', b') \<in> set xs. ae_LastSeen b \<le> ae_LastSeen b')"
proof -
  from assms(1) obtain key agg rest where xs: "xs = (key, agg) # rest"
    by (cases xs) auto
  with assms(2) have key: "key \<noteq> []" and rest: "[] \<notin> fst ` set rest" by auto
  obtain k' t' where r: "oldest_scan rest (key, ae_LastSeen agg) = (k', t')"
    by (cases "oldest_scan rest (key, ae_LastSeen agg)")
  from oldest_scan_spec [OF key rest r]
  have k': "k' \<noteq> []" and le: "t' \<le> ae_LastSeen agg"
    and all: "\<forall>(key, agg) \<in> set rest. t' \<le> ae_LastSeen agg"
    and src: "(k', t') = (key, ae_LastSeen agg) \<or> (\<exists>b. (k', b) \<in> set rest \<and> ae_LastSeen b = t')"
    by auto
  have scan: "fst (oldest_scan xs ([], 0)) = k'" using xs r by simp
  from src obtain b where b: "(k', b) \<in> set xs" "ae_LastSeen b = t'"
    using xs by auto
  have "\<forall>(k'', b') \<in> set xs. ae_LastSeen b \<le> ae_LastSeen b'"
    using xs le all b(2) by auto
  with scan k' b(1) show ?thesis by blast
qed

lemma removeOldest_spec:
  assumes "xs \<noteq> []" and "ea_keys_ok xs"
  shows "\<exists>k b. map_of xs k = Some b \<and> (\<forall>(k', b') \<in> set xs. ae_LastSeen b \<le> ae_LastSeen b')
       \<and> removeOldest xs = AList.delete k xs \<and> Suc (length (removeOldest xs)) = length xs"
proof -
  from assms have ne: "[] \<notin> fst ` set xs" and d: "distinct (map fst xs)"
    by (simp_all add: ea_keys_ok_def)
  from oldest_scan_start [OF assms(1) ne] obtain k b where
    k: "fst (oldest_scan xs ([], 0)) = k" "k \<noteq> []" "(k, b) \<in> set xs"
    and m: "\<forall>(k', b') \<in> set xs. ae_LastSeen b \<le> ae_LastSeen b'" by blast
  have r: "removeOldest xs = AList.delete k xs" using k(1,2) by (simp add: removeOldest_def)
  have "k \<in> fst ` set xs" using k(3) by force
  from length_delete_distinct [OF d this] r
  have "Suc (length (removeOldest xs)) = length xs" by simp
  moreover have "map_of xs k = Some b" using d k(3) by simp
  ultimately show ?thesis using m r by blast
qed

lemma removeOldest_keys_ok: "ea_keys_ok xs \<Longrightarrow> ea_keys_ok (removeOldest xs)"
  using AList.dom_delete_subset [of "fst (oldest_scan xs ([], 0))" xs]
  by (auto simp: ea_keys_ok_def removeOldest_def Let_def AList.distinct_delete simp del: set_map)

lemma AddEvent_maxEvents [simp]: "ea_maxEvents (AddEvent ev now a) = ea_maxEvents a"
  by (cases ev) (simp_all add: Let_def)

lemma AddEvent_keys_ok:
  "ea_keys_ok (ea_aggregated a) \<Longrightarrow> ea_keys_ok (ea_aggregated (AddEvent ev now a))"
  by (cases ev) (simp_all add: Let_def foldEvent_keys_ok removeOldest_keys_ok)

lemma AddEvent_step:
  assumes ok: "ea_keys_ok (ea_aggregated a)" and m: "1 \<le> ea_maxEvents a"
    and le: "int (length (ea_aggregated a)) \<le> ea_maxEvents a"
  shows "int (length (ea_aggregated (AddEvent ev now a))) \<le> ea_maxEvents a"
proof (cases ev)
  case None
  with le show ?thesis by simp
next
  case (Some e)
  show ?thesis
  proof (cases "int (length (ea_aggregated a)) \<ge> ea_maxEvents a")
    case True
    with m have ne: "ea_aggregated a \<noteq> []" by auto
    from removeOldest_spec [OF ne ok]
    have len: "Suc (length (removeOldest (ea_aggregated a))) = length (ea_aggregated a)" by blast
    have "length (foldEvent e now (removeOldest (ea_aggregated a))) \<le> length (ea_aggregated a)"
      using foldEvent_length [of e now "removeOldest (ea_aggregated a)"] len by simp
    with True Some le show ?thesis by simp
  next
    case False
    have "length (foldEvent e now (ea_aggregated a)) \<le> Suc (length (ea_aggregated a))"
      by (rule foldEvent_length)
    with False Some show ?thesis by simp
  qed
qed

lemma ea_reachable_inv:
  "ea_reachable a \<Longrightarrow> ea_keys_ok (ea_aggregated a)
     \<and> (1 \<le> ea_maxEvents a \<longrightarrow> int (length (ea_aggregated a)) \<le> ea_maxEvents a)"
proof (induction rule: ea_reachable.induct)
  case (ea_new windowSize maxEvents)
  show ?case by (simp add: NewEventAggregator_def ea_keys_ok_def)
next
  case (ea_add a event now)
  then have ok: "ea_keys_ok (ea_aggregated a)" by simp
  have "int (length (ea_aggregated (AddEvent event now a))) \<le> ea_maxEvents a"
    if m: "1 \<le> ea_maxEvents a"
  proof -
    from ea_add.IH m have "int (length (ea_aggregated a)) \<le> ea_maxEvents a" by simp
    from AddEvent_step [OF ok m this] show ?thesis .
  qed
  with AddEvent_keys_ok [OF ok] show ?case by simp
next
  case (ea_cleanup a now)
  obtain P where f: "ea_aggregated (event_cleanup now a) = filter P (ea_aggregated a)"
    and m: "ea_maxEvents (event_cleanup now a) = ea_maxEvents a"
    by (simp add: event_cleanup_def Let_def)
  from ea_cleanup.IH have le: "int (length (ea_aggregated a)) \<le> ea_maxEvents a"
    if "1 \<le> ea_maxEvents a" using that by simp
  have l: "int (length (filter P (ea_aggregated a))) \<le> ea_maxEvents a"
    if "1 \<le> ea_maxEvents a"
    using le [OF that] length_filter_le [of P "ea_aggregated a"] by linarith
  have "ea_keys_ok (filter P (ea_aggregated a))"
    using ea_cleanup.IH by (auto simp: ea_keys_ok_def distinct_map_filter)
  with l show ?case unfolding f m by simp
next
  case (ea_reorder a xs)
  from ea_reorder.hyps(2) have s: "set xs = set (ea_aggregated a)" by (rule mset_eq_setD)
  from ea_reorder.hyps(2) have l: "length xs = length (ea_aggregated a)" by (rule mset_eq_length)
  from ea_reorder.hyps(2) have "mset (map fst xs) = mset (map fst (ea_aggregated a))" by simp
  then have d: "distinct (map fst xs) = distinct (map fst (ea_aggregated a))"
    by (rule mset_eq_imp_distinct_iff)
  from ea_reorder.IH s l d show ?case by (simp add: ea_keys_ok_def)
qed

text \<open>
  Claim C10. In every state \<open>a\<close> that an event aggregator built with
  \<open>maxEvents \<ge> 1\<close> reaches through \<^verbatim>\<open>AddEvent\<close> calls (and runs of the cleanup), the
  number of buckets is at most \<open>maxEvents\<close>, and so it is after one more \<^verbatim>\<open>AddEvent\<close>. When \<open>a\<close> already holds
  \<open>maxEvents\<close> buckets, \<^verbatim>\<open>AddEvent\<close> first deletes one bucket \<open>k\<close> whose last-seen time
  is the least of all, and only then folds the event in, whatever the key of the event.
\<close>

theorem AddEvent_capacity:
  assumes "ea_reachable a" and "1 \<le> ea_maxEvents a"
  shows "int (length (ea_aggregated a)) \<le> ea_maxEvents a
       \<and> int (length (ea_aggregated (AddEvent ev now a))) \<le> ea_maxEvents a
       \<and> (int (length (ea_aggregated a)) \<ge> ea_maxEvents a \<longrightarrow>
            (\<exists>k b. map_of (ea_aggregated a) k = Some b
               \<and> (\<forall>(k', b') \<in> set (ea_aggregated a). ae_LastSeen b \<le> ae_LastSeen b')
               \<and> ea_aggregated (AddEvent (Some e) now a)
                   = foldEvent e now (AList.delete k (ea_aggregated a))))"
proof -
  from ea_reachable_inv [OF assms(1)] assms(2)
  have ok: "ea_keys_ok (ea_aggregated a)"
    and le: "int (length (ea_aggregated a)) \<le> ea_maxEvents a" by auto
  have step: "int (length (ea_aggregated (AddEvent ev now a))) \<le> ea_maxEvents a"
    by (rule AddEvent_step [OF ok assms(2) le])
  have "\<exists>k b. map_of (ea_aggregated a) k = Some b
               \<and> (\<forall>(k', b') \<in> set (ea_aggregated a). ae_LastSeen b \<le> ae_LastSeen b')
               \<and> ea_aggregated (AddEvent (Some e) now a)
                   = foldEvent e now (AList.delete k (ea_aggregated a))"
    if full: "int (length (ea_aggregated a)) \<ge> ea_maxEvents a"
  proof -
    from full assms(2) have ne: "ea_aggregated a \<noteq> []" by auto
    from removeOldest_spec [OF ne ok] obtain k b where
      "map_of (ea_aggregated a) k = Some b"
      "\<forall>(k', b') \<in> set (ea_aggregated a). ae_LastSeen b \<le> ae_LastSeen b'"
      "removeOldest (ea_aggregated a) = AList.delete k (ea_aggregated a)" by blast
    with full show ?thesis by (intro exI [of _ k] exI [of _ b]) simp
  qed
  with le step show ?thesis by blast
qed

lemma evfull_eq:
  "evfull = \<lparr>ea_windowSize = 60000000000, ea_maxEvents = 1,
             ea_aggregated = [(''default/BackOff/Pod'', evbucket0)]\<rparr>"
  by (simp add: evfull_def ev0_def evbucket0_def NewEventAggregator_def foldEvent_def
      eventAggregationKey_def removeOldest_def)

text \<open>
  An aggregator with room for one bucket that holds one: the next event, of another key,
  replaces the bucket.
\<close>

theorem AddEvent_capacity_witness:
  "ea_reachable evfull \<and> 1 \<le> ea_maxEvents evfull
   \<and> int (length (ea_aggregated evfull)) \<ge> ea_maxEvents evfull
   \<and> int (length (ea_aggregated (AddEvent (Some ev1) 5 evfull))) \<le> ea_maxEvents evfull
   \<and> map fst (ea_aggregated (AddEvent (Some ev1) 5 evfull)) = [''default/Failed/Pod'']"
proof -
  have r: "ea_reachable evfull"
    unfolding evfull_def by (rule ea_add, rule ea_new)
  have m: "1 \<le> ea_maxEvents evfull" by (simp add: evfull_eq)
  have f: "int (length (ea_aggregated evfull)) \<ge> ea_maxEvents evfull" by (simp add: evfull_eq)
  have k: "map fst (ea_aggregated (AddEvent (Some ev1) 5 evfull)) = [''default/Failed/Pod'']"
    by (simp add: evfull_eq ev1_def foldEvent_def eventAggregationKey_def removeOldest_def)
  from AddEvent_capacity [OF r m, of "Some ev1" 5 ev1] r m f k show ?thesis by simp
qed

section \<open>Resource cache\<close>

lemma resources_handleAdd [simp]:
  "cc_resources (handleAdd obj c) = AList.update (GetNamespace obj @ ''/'' @ GetName obj) obj (cc_resources c)"
  by (simp add: handleAdd_def Let_def)

lemma resources_handleDelete [simp]:
  "cc_resources (handleDelete obj c) = AList.delete (GetNamespace obj @ ''/'' @ GetName obj) (cc_resources c)"
  by (simp add: handleDelete_def Let_def)

text \<open>
  Claim C9. When the old and the new object have the same key, \<^verbatim>\<open>OnUpdate\<close> leaves the
  cache with the contents that \<^verbatim>\<open>OnDelete\<close> of the old object followed by \<^verbatim>\<open>OnAdd\<close>
  of the new one leaves, the key holding the new object. The update is one locked
  section, so a reader sees the cache before it or after it and nothing between: a key
  present before the update is present in every state a reader can see.
\<close>

theorem update_replaces_in_one_step:
  assumes "GetNamespace oldObj @ ''/'' @ GetName oldObj = GetNamespace newObj @ ''/'' @ GetName newObj"
  shows "map_of (cc_resources (handleUpdate oldObj newObj c))
           = map_of (cc_resources (handleAdd newObj (handleDelete oldObj c)))
       \<and> map_of (cc_resources (handleUpdate oldObj newObj c))
           (GetNamespace newObj @ ''/'' @ GetName newObj) = Some newObj
       \<and> visible_states [OnUpdate oldObj newObj] c = [c, handleUpdate oldObj newObj c]
       \<and> (map_of (cc_resources c) (GetNamespace newObj @ ''/'' @ GetName newObj) \<noteq> None \<longrightarrow>
            (\<forall>s \<in> set (visible_states [OnUpdate oldObj newObj] c).
               map_of (cc_resources s) (GetNamespace newObj @ ''/'' @ GetName newObj) \<noteq> None))"
  using assms
  by (auto simp: handleUpdate_def visible_states_def AList.update_conv' AList.delete_conv')


lemma names_objOld: "GetNamespace objOld = ''default''" "GetName objOld = ''app''"
  by (simp_all add: objOld_def GetNamespace_def GetName_def getNestedString_def NestedString_def)
lemma names_objNew: "GetNamespace objNew = ''default''" "GetName objNew = ''app''"
  by (simp_all add: objNew_def GetNamespace_def GetName_def getNestedString_def NestedString_def)

text \<open>An object updated from phase \<open>Pending\<close> to \<open>Running\<close> under the key \<open>default/app\<close>.\<close>

theorem update_replaces_in_one_step_witness:
  "GetNamespace objOld @ ''/'' @ GetName objOld = GetNamespace objNew @ ''/'' @ GetName objNew
   \<and> map_of (cc_resources (handleAdd objOld emptyCollector)) ''default/app'' = Some objOld
   \<and> map_of (cc_resources (handleUpdate objOld objNew (handleAdd objOld emptyCollector))) ''default/app''
       = Some objNew
   \<and> map_of (cc_resources (handleUpdate objOld objNew (handleAdd objOld emptyCollector)))
       = map_of (cc_resources (handleAdd objNew (handleDelete objOld (handleAdd objOld emptyCollector))))"
proof -
  have h: "GetNamespace objOld @ ''/'' @ GetName objOld = GetNamespace objNew @ ''/'' @ GetName objNew"
    by (simp only: names_objOld names_objNew)
  have a: "map_of (cc_resources (handleAdd objOld emptyCollector)) ''default/app'' = Some objOld"
    by (simp add: names_objOld AList.update_conv')
  note t = update_replaces_in_one_step [OF h, of "handleAdd objOld emptyCollector"]
  from t have c1: "map_of (cc_resources (handleUpdate objOld objNew (handleAdd objOld emptyCollector)))
       = map_of (cc_resources (handleAdd objNew (handleDelete objOld (handleAdd objOld emptyCollector))))"
    by (rule conjunct1)
  from t have "map_of (cc_resources (handleUpdate objOld objNew (handleAdd objOld emptyCollector)))
       (GetNamespace objNew @ ''/'' @ GetName objNew) = Some objNew"
    by blast
  then have c2: "map_of (cc_resources (handleUpdate objOld objNew (handleAdd objOld emptyCollector)))
       ''default/app'' = Some objNew"
    by (simp add: names_objNew)
  from h a c1 c2 show ?thesis by blast
qed

text \<open>
  The two calls \<^verbatim>\<open>OnDelete\<close>, \<^verbatim>\<open>OnAdd\<close> instead pass through a state that a reader
  can see and in which the key is absent.
\<close>

lemma delete_add_gap:
  "map_of (cc_resources (visible_states [OnDelete objOld, OnAdd objNew] (handleAdd objOld emptyCollector) ! 1)) ''default/app'' = None"
  by (simp add: visible_states_def names_objOld AList.delete_conv')

section \<open>Map strategies\<close>

lemma entryState_nonempty:
  "entryState vp e \<noteq> [] \<longleftrightarrow> (\<exists>m s. e = JMap m \<and> map_of m vp = Some (JString s) \<and> s \<noteq> [])"
  by (auto simp: entryState_def split: json.splits option.splits)

lemma mapStateEntry_eq:
  "mapStateEntry desc cfg cl entry =
     (if entryState (mc_ValuePath cfg) (snd entry) \<noteq> []
      then [MustNewConstMetric desc (Finite 1) (cl @ [fst entry, entryState (mc_ValuePath cfg) (snd entry)])]
      else [])"
  by (simp add: mapStateEntry_def entryState_def Let_def split: json.splits)

lemma concat_map_if:
  "concat (map (\<lambda>x. if P x then [f x] else []) xs) = map f (filter P xs)"
  by (induction xs) auto

text \<open>
  Claim C5. The \<^verbatim>\<open>map_state\<close> strategy emits one metric for each entry of the map at
  the configured path that is itself a map holding a non-empty string under
  \<^verbatim>\<open>valuePath\<close>, and nothing for any other entry: \<open>K\<close> metrics for \<open>K\<close> such entries
  among the \<open>N\<close> of the map. Each has value \<open>1\<close> and the labels: common labels, map key,
  state string.
\<close>

theorem map_state_sparse:
  "collectMapStateMetric desc obj cfg commonLabels =
     map (\<lambda>(key, entryData).
            MustNewConstMetric desc (Finite 1)
              (commonLabels @ [key, entryState (mc_ValuePath cfg) entryData]))
       (filter (\<lambda>(key, entryData). entryState (mc_ValuePath cfg) entryData \<noteq> [])
          (entries_of (extractFieldMap obj (mc_Path cfg))))
   \<and> length (collectMapStateMetric desc obj cfg commonLabels) =
       length (filter (\<lambda>(key, entryData).
                  \<exists>m s. entryData = JMap m \<and> map_of m (mc_ValuePath cfg) = Some (JString s) \<and> s \<noteq> [])
          (entries_of (extractFieldMap obj (mc_Path cfg))))
   \<and> (\<forall>m \<in> set (collectMapStateMetric desc obj cfg commonLabels). m_value m = Finite 1)"
proof -
  have eq: "collectMapStateMetric desc obj cfg commonLabels =
     map (\<lambda>(key, entryData).
            MustNewConstMetric desc (Finite 1)
              (commonLabels @ [key, entryState (mc_ValuePath cfg) entryData]))
       (filter (\<lambda>(key, entryData). entryState (mc_ValuePath cfg) entryData \<noteq> [])
          (entries_of (extractFieldMap obj (mc_Path cfg))))"
    unfolding collectMapStateMetric_def mapStateEntry_eq [abs_def]
    by (simp add: concat_map_if case_prod_beta')
  have p: "(\<lambda>(key, entryData). entryState (mc_ValuePath cfg) entryData \<noteq> [])
      = (\<lambda>(key, entryData).
                  \<exists>m s. entryData = JMap m \<and> map_of m (mc_ValuePath cfg) = Some (JString s) \<and> s \<noteq> [])"
    by (simp only: entryState_nonempty)
  have len: "length (collectMapStateMetric desc obj cfg commonLabels) =
       length (filter (\<lambda>(key, entryData).
                  \<exists>m s. entryData = JMap m \<and> map_of m (mc_ValuePath cfg) = Some (JString s) \<and> s \<noteq> [])
          (entries_of (extractFieldMap obj (mc_Path cfg))))"
    by (simp only: eq length_map p)
  have val: "\<forall>m \<in> set (collectMapStateMetric desc obj cfg commonLabels). m_value m = Finite 1"
    by (auto simp: eq MustNewConstMetric_def)
  from eq len val show ?thesis by blast
qed

lemma components_entries:
  "entries_of (extractFieldMap objComponents ''status.components'') =
     [(''web'', JMap [(''phase'', JString ''Running''), (''replicas'', JInt64 3)]),
      (''db'', JMap [(''phase'', JString [])]),
      (''cache'', JMap [(''replicas'', JString ''2.5'')]),
      (''note'', JString ''text'')]"
  by (simp add: entries_of_def extractFieldMap_def NestedMap_def objComponents_def)

text \<open>Four components of which one has a non-empty phase: one metric.\<close>

theorem map_state_sparse_witness:
  "length (entries_of (extractFieldMap objComponents (mc_Path cfgState))) = 4
   \<and> collectMapStateMetric descState objComponents cfgState [''app''] =
       [MustNewConstMetric descState (Finite 1) [''app'', ''web'', ''Running'']]"
proof -
  have p: "mc_Path cfgState = ''status.components''" "mc_ValuePath cfgState = ''phase''"
    by (simp_all add: cfgState_def)
  from map_state_sparse [of descState objComponents cfgState "[''app'']"]
  have "collectMapStateMetric descState objComponents cfgState [''app''] =
     map (\<lambda>(key, entryData).
            MustNewConstMetric descState (Finite 1)
              ([''app''] @ [key, entryState (mc_ValuePath cfgState) entryData]))
       (filter (\<lambda>(key, entryData). entryState (mc_ValuePath cfgState) entryData \<noteq> [])
          (entries_of (extractFieldMap objComponents (mc_Path cfgState))))"
    by (rule conjunct1)
  then show ?thesis
    by (simp add: p components_entries entryState_def)
qed

lemma mapGaugeEntry_eq:
  "mapGaugeEntry pf desc cfg cl entry =
     (if \<exists>m. snd entry = JMap m
      then [MustNewConstMetric desc
              (case snd entry of
                 JMap entryMap \<Rightarrow>
                   (case map_of entryMap (mc_ValuePath cfg) of
                      Some rawValue \<Rightarrow> toFloat64 pf (Tree rawValue)
                    | None \<Rightarrow> Finite 0)
               | _ \<Rightarrow> Finite 0)
              (cl @ [fst entry])]
      else [])"
  by (simp add: mapGaugeEntry_def Let_def split: json.splits)

text \<open>
  Claim C6 as the code has it. The \<^verbatim>\<open>map_gauge\<close> strategy emits one metric for each
  entry of the map at the configured path whose value is itself a map, and skips an entry
  that holds anything else. The metric has the labels: common labels, map key; its value
  is the number found under \<^verbatim>\<open>valuePath\<close> in the entry, and \<open>0\<close> when the entry has no
  such key.
\<close>

theorem map_gauge_per_map_entry:
  "collectMapGaugeMetric pf desc obj cfg commonLabels =
     map (\<lambda>(key, entryData).
            MustNewConstMetric desc
              (case entryData of
                 JMap entryMap \<Rightarrow>
                   (case map_of entryMap (mc_ValuePath cfg) of
                      Some rawValue \<Rightarrow> toFloat64 pf (Tree rawValue)
                    | None \<Rightarrow> Finite 0)
               | _ \<Rightarrow> Finite 0)
              (commonLabels @ [key]))
       (filter (\<lambda>(key, entryData). \<exists>m. entryData = JMap m)
          (entries_of (extractFieldMap obj (mc_Path cfg))))"
  unfolding collectMapGaugeMetric_def mapGaugeEntry_eq [abs_def]
  by (simp add: concat_map_if case_prod_beta')

text \<open>
  Four components: one with 3 replicas, one without the key, one with the string
  \<open>2.5\<close>, and one that is a string and not a map.
\<close>

theorem map_gauge_per_map_entry_witness:
  "collectMapGaugeMetric ParseFloat_sample descGauge objComponents cfgGauge [''app''] =
     [MustNewConstMetric descGauge (Finite 3) [''app'', ''web''],
      MustNewConstMetric descGauge (Finite 0) [''app'', ''db''],
      MustNewConstMetric descGauge (Finite 2.5) [''app'', ''cache'']]"
proof -
  have p: "mc_Path cfgGauge = ''status.components''" "mc_ValuePath cfgGauge = ''replicas''"
    by (simp_all add: cfgGauge_def)
  from map_gauge_per_map_entry [of ParseFloat_sample descGauge objComponents cfgGauge "[''app'']"]
  show ?thesis
    by (simp add: p components_entries float64_of_int_def ParseFloat_sample_def)
qed

text \<open>
  Claim C6 as stated fails: the map has four entries and three metrics are emitted, none
  for the entry that is not a map.
\<close>

theorem map_gauge_counterexample:
  "length (entries_of (extractFieldMap objComponents (mc_Path cfgGauge))) = 4
   \<and> length (collectMapGaugeMetric ParseFloat_sample descGauge objComponents cfgGauge [''app'']) = 3"
  by (simp add: cfgGauge_def components_entries collectMapGaugeMetric_def mapGaugeEntry_def)

section \<open>Conditions\<close>

lemma lower_t: "toLowerChar c = CHR ''t'' \<longleftrightarrow> c = CHR ''t'' \<or> c = CHR ''T''"
  by (auto simp: toLowerChar_def)

lemma lower_r: "toLowerChar c = CHR ''r'' \<longleftrightarrow> c = CHR ''r'' \<or> c = CHR ''R''"
  by (auto simp: toLowerChar_def)

lemma lower_u: "toLowerChar c = CHR ''u'' \<longleftrightarrow> c = CHR ''u'' \<or> c = CHR ''U''"
  by (auto simp: toLowerChar_def)

lemma lower_e: "toLowerChar c = CHR ''e'' \<longleftrightarrow> c = CHR ''e'' \<or> c = CHR ''E''"
  by (auto simp: toLowerChar_def)

lemma EqualFold_true_iff:
  "EqualFold_true s \<longleftrightarrow>
     (\<exists>a b c d. s = [a, b, c, d] \<and> (a = CHR ''t'' \<or> a = CHR ''T'') \<and> (b = CHR ''r'' \<or> b = CHR ''R'')
        \<and> (c = CHR ''u'' \<or> c = CHR ''U'') \<and> (d = CHR ''e'' \<or> d = CHR ''E''))"
proof -
  have "map toLowerChar s = ''true'' \<longleftrightarrow>
     (\<exists>a b c d. s = [a, b, c, d] \<and> toLowerChar a = CHR ''t'' \<and> toLowerChar b = CHR ''r''
        \<and> toLowerChar c = CHR ''u'' \<and> toLowerChar d = CHR ''e'')"
    by (auto simp: map_eq_Cons_conv)
  then show ?thesis
    by (simp only: EqualFold_true_def lower_t lower_r lower_u lower_e)
qed

lemma conditionEntry_eq:
  assumes "conditionFields cfg = (typeField, statusField, reasonField)"
  shows "conditionEntry desc cfg cl condData =
     (if conditionField typeField condData = [] then []
      else [MustNewConstMetric desc
              (if EqualFold_true (conditionField statusField condData) then Finite 1 else Finite 0)
              (cl @ [conditionField typeField condData, conditionField statusField condData,
                     conditionField reasonField condData])])"
  using assms by (simp add: conditionEntry_def conditionField_def Let_def split: json.splits)

text \<open>
  Claim C7. Each element of the array at the configured path is handled on its own. Its
  type, status and reason are read as strings (\<open>conditionField\<close>: empty when the element is
  not a map, when the field is missing and when it holds no string). An element whose
  type is empty emits nothing; any other element emits one metric, with value \<open>1\<close> when
  the status is \<open>true\<close> in any mix of upper and lower case and \<open>0\<close> for every other status,
  the empty one included.
\<close>

theorem conditions_polarity:
  assumes "conditionFields cfg = (typeField, statusField, reasonField)"
  shows "collectConditionsMetric desc obj cfg commonLabels =
           concat (map (conditionEntry desc cfg commonLabels)
             (entries_of (extractFieldSlice obj (mc_Path cfg))))
       \<and> conditionEntry desc cfg commonLabels condData =
           (if conditionField typeField condData = [] then []
            else [MustNewConstMetric desc
                    (if EqualFold_true (conditionField statusField condData) then Finite 1 else Finite 0)
                    (commonLabels @ [conditionField typeField condData,
                       conditionField statusField condData, conditionField reasonField condData])])
       \<and> (EqualFold_true status \<longleftrightarrow>
            (\<exists>a b c d. status = [a, b, c, d] \<and> (a = CHR ''t'' \<or> a = CHR ''T'')
               \<and> (b = CHR ''r'' \<or> b = CHR ''R'') \<and> (c = CHR ''u'' \<or> c = CHR ''U'')
               \<and> (d = CHR ''e'' \<or> d = CHR ''E'')))
       \<and> \<not> EqualFold_true []"
  using conditionEntry_eq [OF assms] EqualFold_true_iff
  by (simp add: collectConditionsMetric_def EqualFold_true_def)

lemma conditions_entries:
  "entries_of (extractFieldSlice objConditions ''status.conditions'') =
         [JMap [(''type'', JString ''Ready''), (''status'', JString ''TRUE''), (''reason'', JString ''Up'')],
          JMap [(''type'', JString ''Progressing''), (''status'', JString ''False'')],
          JMap [(''type'', JString ''Synced'')],
          JMap [(''status'', JString ''True'')],
          JMap [(''type'', JString []), (''status'', JString ''True'')]]"
  by (simp add: entries_of_def extractFieldSlice_def NestedSlice_def objConditions_def)

text \<open>
  Five conditions: status \<open>TRUE\<close>, status \<open>False\<close>, no status, no type, empty type.
\<close>

theorem conditions_polarity_witness:
  "conditionFields cfgCond = (''type'', ''status'', ''reason'')
   \<and> collectConditionsMetric descCond objConditions cfgCond [''app''] =
       [MustNewConstMetric descCond (Finite 1) [''app'', ''Ready'', ''TRUE'', ''Up''],
        MustNewConstMetric descCond (Finite 0) [''app'', ''Progressing'', ''False'', []],
        MustNewConstMetric descCond (Finite 0) [''app'', ''Synced'', [], []]]"
proof -
  have f: "conditionFields cfgCond = (''type'', ''status'', ''reason'')"
    by (simp add: conditionFields_def cfgCond_def)
  have p: "mc_Path cfgCond = ''status.conditions''" by (simp add: cfgCond_def)
  note t = conditions_polarity [OF f, of descCond objConditions "[''app'']"]
  have e: "conditionEntry descCond cfgCond [''app''] condData =
           (if conditionField ''type'' condData = [] then []
            else [MustNewConstMetric descCond
                    (if EqualFold_true (conditionField ''status'' condData) then Finite 1 else Finite 0)
                    ([''app''] @ [conditionField ''type'' condData,
                       conditionField ''status'' condData, conditionField ''reason'' condData])])"
    for condData using t [of condData] by blast
  have "collectConditionsMetric descCond objConditions cfgCond [''app''] =
           concat (map (conditionEntry descCond cfgCond [''app''])
             (entries_of (extractFieldSlice objConditions (mc_Path cfgCond))))"
    using t by blast
  then show ?thesis
    by (simp add: f p conditions_entries e conditionField_def EqualFold_true_def toLowerChar_def)
qed

section \<open>Fail-soft extraction\<close>

lemma NestedFieldNoCopy_append:
  "NestedFieldNoCopy v (pre @ rest) =
     (case NestedFieldNoCopy v pre of
        Found v' \<Rightarrow> NestedFieldNoCopy v' rest
      | NotFound \<Rightarrow> NotFound
      | AccessErr \<Rightarrow> AccessErr)"
  by (induction pre arbitrary: v) (auto split: json.splits option.splits)

lemma NestedFieldNoCopy_blocked:
  assumes "NestedFieldNoCopy v pre = Found v'"
    and "(\<forall>m. v' \<noteq> JMap m) \<or> (\<exists>m. v' = JMap m \<and> map_of m seg = None)"
  shows "NestedFieldNoCopy v (pre @ seg # post) = NotFound
       \<or> NestedFieldNoCopy v (pre @ seg # post) = AccessErr"
  using assms by (auto simp: NestedFieldNoCopy_append split: json.splits)

lemma extract_blocked:
  assumes "path \<noteq> []"
    and "NestedFieldNoCopy (JMap obj) (Split path CHR ''.'') = NotFound
       \<or> NestedFieldNoCopy (JMap obj) (Split path CHR ''.'') = AccessErr"
  shows "extractFieldString obj path = []" and "extractFieldFloat pf obj path = Finite 0"
    and "extractFieldMap obj path = None" and "extractFieldSlice obj path = None"
  using assms
  by (auto simp: extractFieldString_def extractFieldFloat_def extractFieldMap_def
      extractFieldSlice_def NestedString_def NestedMap_def NestedSlice_def)

lemma float64_of_int_exact: "\<bar>v\<bar> \<le> 2 ^ 53 \<Longrightarrow> float64_of_int v = Finite (of_int v)"
  by (simp add: float64_of_int_def)

text \<open>
  Claim C8 as the code has it. The four extractors return the zero value of their type
  for the empty path, and for a path one of whose segments is reached at a value that is
  not a map or is a map without that key. \<^verbatim>\<open>toFloat64\<close> returns a \<^verbatim>\<open>float64\<close> or
  \<^verbatim>\<open>float32\<close> as it is, an integer of magnitude up to \<open>2 ^ 53\<close> as its value, \<open>1\<close> and
  \<open>0\<close> for the booleans, and for a string what \<^verbatim>\<open>strconv.ParseFloat\<close> returns beside
  its error: the number parsed, \<open>0\<close> on a syntax error, an infinity on a range error.
\<close>

theorem extraction_fail_soft:
  "(extractFieldString obj [] = [] \<and> extractFieldFloat pf obj [] = Finite 0
      \<and> extractFieldMap obj [] = None \<and> extractFieldSlice obj [] = None)
   \<and> (path \<noteq> [] \<and> Split path CHR ''.'' = pre @ seg # post
        \<and> NestedFieldNoCopy (JMap obj) pre = Found v
        \<and> ((\<forall>m. v \<noteq> JMap m) \<or> (\<exists>m. v = JMap m \<and> map_of m seg = None))
      \<longrightarrow> extractFieldString obj path = [] \<and> extractFieldFloat pf obj path = Finite 0
        \<and> extractFieldMap obj path = None \<and> extractFieldSlice obj path = None)
   \<and> toFloat64 pf (Tree (JFloat64 x)) = x \<and> toFloat64 pf (AFloat32 x) = x
   \<and> (\<bar>i\<bar> \<le> 2 ^ 53 \<longrightarrow>
        toFloat64 pf (AInt i) = Finite (of_int i) \<and> toFloat64 pf (AInt32 i) = Finite (of_int i)
        \<and> toFloat64 pf (Tree (JInt64 i)) = Finite (of_int i)
        \<and> toFloat64 pf (AUint i) = Finite (of_int i) \<and> toFloat64 pf (AUint32 i) = Finite (of_int i)
        \<and> toFloat64 pf (AUint64 i) = Finite (of_int i))
   \<and> toFloat64 pf (Tree (JBool True)) = Finite 1 \<and> toFloat64 pf (Tree (JBool False)) = Finite 0
   \<and> toFloat64 pf (Tree (JString s)) =
        (case pf s of
           Parsed f \<Rightarrow> f
         | ErrSyntax \<Rightarrow> Finite 0
         | ErrRange negative \<Rightarrow> if negative then NegInf else PosInf)"
proof -
  have a: "extractFieldString obj [] = [] \<and> extractFieldFloat pf obj [] = Finite 0
      \<and> extractFieldMap obj [] = None \<and> extractFieldSlice obj [] = None"
    by (simp add: extractFieldString_def extractFieldFloat_def extractFieldMap_def
        extractFieldSlice_def)
  have b: "extractFieldString obj path = [] \<and> extractFieldFloat pf obj path = Finite 0
        \<and> extractFieldMap obj path = None \<and> extractFieldSlice obj path = None"
    if ne: "path \<noteq> []" and sp: "Split path CHR ''.'' = pre @ seg # post"
      and pre: "NestedFieldNoCopy (JMap obj) pre = Found v"
      and blk: "(\<forall>m. v \<noteq> JMap m) \<or> (\<exists>m. v = JMap m \<and> map_of m seg = None)"
  proof -
    from NestedFieldNoCopy_blocked [OF pre blk, of post] sp
    have "NestedFieldNoCopy (JMap obj) (Split path CHR ''.'') = NotFound
       \<or> NestedFieldNoCopy (JMap obj) (Split path CHR ''.'') = AccessErr" by simp
    from extract_blocked [OF ne this] show ?thesis by simp
  qed
  have c: "toFloat64 pf (Tree (JString s)) =
        (case pf s of
           Parsed f \<Rightarrow> f
         | ErrSyntax \<Rightarrow> Finite 0
         | ErrRange negative \<Rightarrow> if negative then NegInf else PosInf)"
    by (cases "pf s") simp_all
  from a b c show ?thesis by (simp add: float64_of_int_exact)
qed

text \<open>
  A path that resolves, a path whose second segment is missing, and a string that is not
  a number.
\<close>

theorem extraction_fail_soft_witness:
  "extractFieldString objComponents ''status.components.web.phase'' = ''Running''
   \<and> extractFieldString objComponents ''status.missing.web'' = []
   \<and> extractFieldFloat ParseFloat_sample objComponents ''status.missing.web'' = Finite 0
   \<and> extractFieldMap objComponents ''status.missing.web'' = None
   \<and> extractFieldSlice objComponents ''status.missing.web'' = None
   \<and> extractFieldFloat ParseFloat_sample objComponents ''status.components.web.replicas'' = Finite 3
   \<and> toFloat64 ParseFloat_sample (Tree (JString ''abc'')) = Finite 0"
proof -
  have h1: "''status.missing.web'' \<noteq> []" by simp
  have h2: "Split ''status.missing.web'' CHR ''.'' = [''status''] @ ''missing'' # [''web'']"
    by simp
  have h3: "NestedFieldNoCopy (JMap objComponents) [''status''] =
      Found (JMap [(''components'', JMap
         [(''web'', JMap [(''phase'', JString ''Running''), (''replicas'', JInt64 3)]),
          (''db'', JMap [(''phase'', JString [])]),
          (''cache'', JMap [(''replicas'', JString ''2.5'')]),
          (''note'', JString ''text'')])])"
    by (simp add: objComponents_def)
  have h4: "\<exists>m. JMap [(''components'', JMap
         [(''web'', JMap [(''phase'', JString ''Running''), (''replicas'', JInt64 3)]),
          (''db'', JMap [(''phase'', JString [])]),
          (''cache'', JMap [(''replicas'', JString ''2.5'')]),
          (''note'', JString ''text'')])] = JMap m \<and> map_of m ''missing'' = None"
    by simp
  note t = extraction_fail_soft [of objComponents ParseFloat_sample "''status.missing.web''"
      "[''status'']" "''missing''" "[''web'']" _ _ 3 "''abc''"]
  from t h1 h2 h3 h4
  have z: "extractFieldString objComponents ''status.missing.web'' = []
     \<and> extractFieldFloat ParseFloat_sample objComponents ''status.missing.web'' = Finite 0
     \<and> extractFieldMap objComponents ''status.missing.web'' = None
     \<and> extractFieldSlice objComponents ''status.missing.web'' = None"
    by blast
  from t have "toFloat64 ParseFloat_sample (Tree (JString ''abc'')) =
        (case ParseFloat_sample ''abc'' of
           Parsed f \<Rightarrow> f
         | ErrSyntax \<Rightarrow> Finite 0
         | ErrRange negative \<Rightarrow> if negative then NegInf else PosInf)"
    by blast
  then have s: "toFloat64 ParseFloat_sample (Tree (JString ''abc'')) = Finite 0"
    by (simp add: ParseFloat_sample_def)
  have r: "extractFieldString objComponents ''status.components.web.phase'' = ''Running''"
    by (simp add: extractFieldString_def NestedString_def objComponents_def)
  have g: "extractFieldFloat ParseFloat_sample objComponents ''status.components.web.replicas'' = Finite 3"
    by (simp add: extractFieldFloat_def objComponents_def float64_of_int_def)
  from z s r g show ?thesis by blast
qed

text \<open>
  Claim C8 as stated fails on a string that is a number out of the range of
  \<^verbatim>\<open>float64\<close>: \<^verbatim>\<open>strconv.ParseFloat("1e999", 64)\<close> reports a range error and returns
  \<open>+Inf\<close>, which \<^verbatim>\<open>toFloat64\<close> passes on.
\<close>

theorem parse_range_counterexample:
  "ParseFloat_sample ''1e999'' = ErrRange False
   \<and> toFloat64 ParseFloat_sample (Tree (JString ''1e999'')) = PosInf"
  by (simp add: ParseFloat_sample_def)

section \<open>Count strategy\<close>

lemma count_list_le_length: "count_list xs x \<le> length xs"
  by (induction xs) auto

lemma count_list_pos_iff: "0 < count_list xs x \<longleftrightarrow> x \<in> set xs"
  by (induction xs) auto

lemma countValues_spec:
  assumes "distinct (map fst vc)"
    and "\<And>v. map_of vc v = (if g v = 0 then None else Some (Finite (real (g v))))"
    and "g [] = 0"
    and "\<And>v. g v + count_list (discoveredValues p xs) v \<le> 2 ^ 53"
  shows "distinct (map fst (countValues p xs vc))
       \<and> (\<forall>v. map_of (countValues p xs vc) v =
            (if g v + (if v = [] then 0 else count_list (discoveredValues p xs) v) = 0 then None
             else Some (Finite (real (g v + (if v = [] then 0 else count_list (discoveredValues p xs) v))))))"
  using assms
proof (induction xs arbitrary: vc g)
  case Nil
  then show ?case by (simp add: discoveredValues_def)
next
  case (Cons x xs)
  obtain key obj where x: "x = (key, obj)" by (cases x)
  let ?found = "extractFieldString obj p"
  have vals: "discoveredValues p (x # xs) = ?found # discoveredValues p xs"
    "discoveredValues p ((key, obj) # xs) = ?found # discoveredValues p xs"
    by (simp_all add: discoveredValues_def x)
  show ?case
  proof (cases "?found = []")
    case True
    have b: "g v + count_list (discoveredValues p xs) v \<le> 2 ^ 53" for v
      using Cons.prems(4) [of v] by (simp add: vals split: if_splits)
    from Cons.IH [of vc g, OF Cons.prems(1) Cons.prems(2) Cons.prems(3) b]
    show ?thesis using True by (simp add: x vals)
  next
    case False
    let ?cur = "case map_of vc ?found of Some n \<Rightarrow> n | None \<Rightarrow> Finite 0"
    let ?vc = "AList.update ?found (f64_incr ?cur) vc"
    let ?g = "g(?found := Suc (g ?found))"
    have cur: "?cur = Finite (real (g ?found))"
      by (simp add: Cons.prems(2))
    have "g ?found + 1 \<le> 2 ^ 53"
      using Cons.prems(4) [of ?found] by (simp add: vals)
    then have "g ?found < 2 ^ 53" by simp
    then have "real (g ?found) < 2 ^ 53"
      by (metis of_nat_less_iff of_nat_numeral of_nat_power)
    then have incr: "f64_incr ?cur = Finite (real (Suc (g ?found)))"
      by (simp add: cur)
    have d: "distinct (map fst ?vc)"
      using Cons.prems(1) by (simp add: AList.distinct_update)
    have m: "map_of ?vc v = (if ?g v = 0 then None else Some (Finite (real (?g v))))" for v
    proof (cases "v = ?found")
      case True
      then have "map_of ?vc v = Some (Finite (real (Suc (g ?found))))"
        by (simp only: AList.update_conv' fun_upd_same incr)
      with True show ?thesis by (simp del: of_nat_Suc)
    next
      case False
      then have "map_of ?vc v = map_of vc v"
        by (simp only: AList.update_conv' fun_upd_apply if_False)
      with False show ?thesis by (simp add: Cons.prems(2))
    qed
    have z: "?g [] = 0" using False Cons.prems(3) by simp
    have b: "?g v + count_list (discoveredValues p xs) v \<le> 2 ^ 53" for v
      using Cons.prems(4) [of v] by (auto simp: vals split: if_splits)
    have step: "countValues p (x # xs) vc = countValues p xs ?vc"
      using False by (simp add: x Let_def)
    from Cons.IH [of ?vc ?g, OF d m z b]
    show ?thesis unfolding step using False by (auto simp: vals)
  qed
qed

lemma countValues_entries:
  assumes "length resources \<le> 2 ^ 53"
  shows "distinct (map fst (countValues p resources []))"
    and "set (countValues p resources []) =
           (\<lambda>v. (v, Finite (real (count_list (discoveredValues p resources) v))))
             ` {v \<in> set (discoveredValues p resources). v \<noteq> []}"
proof -
  have b: "(\<lambda>v. 0::nat) v + count_list (discoveredValues p resources) v \<le> 2 ^ 53" for v
    using count_list_le_length [of "discoveredValues p resources" v] assms
    by (simp add: discoveredValues_def)
  from countValues_spec [of "[]" "\<lambda>v. 0" p resources, OF _ _ _ b]
  have d: "distinct (map fst (countValues p resources []))"
    and m: "\<And>v. map_of (countValues p resources []) v =
            (if (if v = [] then 0 else count_list (discoveredValues p resources) v) = 0 then None
             else Some (Finite (real (if v = [] then 0 else count_list (discoveredValues p resources) v))))"
    by simp_all
  show "distinct (map fst (countValues p resources []))" by (rule d)
  have "(v, c) \<in> set (countValues p resources []) \<longleftrightarrow>
      v \<in> set (discoveredValues p resources) \<and> v \<noteq> []
      \<and> c = Finite (real (count_list (discoveredValues p resources) v))" for v c
  proof -
    have "(v, c) \<in> set (countValues p resources []) \<longleftrightarrow> map_of (countValues p resources []) v = Some c"
      using d by simp
    also have "\<dots> \<longleftrightarrow> v \<noteq> [] \<and> 0 < count_list (discoveredValues p resources) v
        \<and> c = Finite (real (count_list (discoveredValues p resources) v))"
      by (auto simp: m)
    finally show ?thesis by (simp add: count_list_pos_iff conj_commute conj_left_commute)
  qed
  then show "set (countValues p resources []) =
           (\<lambda>v. (v, Finite (real (count_list (discoveredValues p resources) v))))
             ` {v \<in> set (discoveredValues p resources). v \<noteq> []}"
    by (auto simp: image_iff)
qed

text \<open>
  Claim C4. For a cache of at most \<open>2 ^ 53\<close> objects (beyond that a \<^verbatim>\<open>float64\<close> counter
  stops counting), the \<^verbatim>\<open>count\<close> strategy emits one metric for each distinct non-empty
  string found at the path among the cached objects and no other metric; the metric of a
  value carries that value as its only label and has as its value the number of cached
  objects with that value at the path. An object with the empty string at the path is
  counted in no metric.
\<close>

theorem count_by_value:
  assumes "length resources \<le> 2 ^ 53"
  shows "distinct (map m_labelValues (collectCountMetric desc cfg resources))
       \<and> set (collectCountMetric desc cfg resources) =
           (\<lambda>v. MustNewConstMetric desc
                   (Finite (real (count_list (discoveredValues (mc_Path cfg) resources) v))) [v])
             ` {v \<in> set (discoveredValues (mc_Path cfg) resources). v \<noteq> []}"
proof -
  note e = countValues_entries [OF assms, of "mc_Path cfg"]
  have "map m_labelValues (collectCountMetric desc cfg resources)
      = map (\<lambda>v. [v]) (map fst (countValues (mc_Path cfg) resources []))"
    by (simp add: collectCountMetric_def MustNewConstMetric_def case_prod_beta')
  moreover have "distinct (map (\<lambda>v. [v]) (map fst (countValues (mc_Path cfg) resources [])))"
    using e(1) by (simp add: distinct_map inj_on_def)
  ultimately have d: "distinct (map m_labelValues (collectCountMetric desc cfg resources))"
    by simp
  have "set (collectCountMetric desc cfg resources) =
      (\<lambda>(value, count). MustNewConstMetric desc count [value])
        ` set (countValues (mc_Path cfg) resources [])"
    by (simp add: collectCountMetric_def)
  also have "\<dots> = (\<lambda>v. MustNewConstMetric desc
                   (Finite (real (count_list (discoveredValues (mc_Path cfg) resources) v))) [v])
             ` {v \<in> set (discoveredValues (mc_Path cfg) resources). v \<noteq> []}"
    by (simp only: e(2) image_image prod.case)
  finally show ?thesis using d by simp
qed

text \<open>
  Seven cached objects: three \<open>Running\<close>, two \<open>Pending\<close>, one \<open>Failed\<close> and one with an
  empty phase.
\<close>

theorem count_by_value_witness:
  "length cachePhases \<le> 2 ^ 53
   \<and> distinct (map m_labelValues (collectCountMetric descCount cfgCount cachePhases))
   \<and> collectCountMetric descCount cfgCount cachePhases =
       [MustNewConstMetric descCount (Finite 3) [''Running''],
        MustNewConstMetric descCount (Finite 2) [''Pending''],
        MustNewConstMetric descCount (Finite 1) [''Failed'']]"
proof -
  have h: "length cachePhases \<le> 2 ^ 53" by (simp add: cachePhases_def)
  have v: "collectCountMetric descCount cfgCount cachePhases =
       [MustNewConstMetric descCount (Finite 3) [''Running''],
        MustNewConstMetric descCount (Finite 2) [''Pending''],
        MustNewConstMetric descCount (Finite 1) [''Failed'']]"
    by (simp add: collectCountMetric_def cfgCount_def cachePhases_def phaseObject_def
        extractFieldString_def NestedString_def)
  from count_by_value [OF h, of descCount cfgCount] h v show ?thesis by blast
qed

section \<open>Metrics of an unknown type\<close>

lemma descriptorLabelNames_None:
  "descriptorLabelNames names metricCfg = None \<longleftrightarrow> mc_Type metricCfg \<notin> set metricTypes"
  by (simp add: descriptorLabelNames_def metricTypes_def)

lemma initMetric_log:
  "cc_log (initMetric prefix names metricCfg c) =
     cc_log c @ (if mc_Type metricCfg \<in> set metricTypes then []
                 else [(WarnLevel, ''Unknown metric type'', [(''type'', mc_Type metricCfg)])])"
proof (cases "descriptorLabelNames names metricCfg")
  case None
  then show ?thesis
    using descriptorLabelNames_None [of names metricCfg] by (simp add: initMetric_def)
next
  case (Some labelNames)
  then show ?thesis
    using descriptorLabelNames_None [of names metricCfg] by (simp add: initMetric_def)
qed

lemma initMetric_descriptors:
  "fst ` set (cc_descriptors (initMetric prefix names metricCfg c)) =
     fst ` set (cc_descriptors c)
       \<union> (if mc_Type metricCfg \<in> set metricTypes then {mc_Name metricCfg} else {})"
proof (cases "descriptorLabelNames names metricCfg")
  case None
  then show ?thesis
    using descriptorLabelNames_None [of names metricCfg] by (simp add: initMetric_def)
next
  case (Some labelNames)
  then show ?thesis
    using descriptorLabelNames_None [of names metricCfg]
    by (simp add: initMetric_def AList.dom_update del: set_map)
qed

lemma fold_initMetric:
  "cc_log (fold (initMetric prefix names) ms c) =
      cc_log c @ map (\<lambda>m. (WarnLevel, ''Unknown metric type'', [(''type'', mc_Type m)]))
                   (filter (\<lambda>m. mc_Type m \<notin> set metricTypes) ms)
   \<and> fst ` set (cc_descriptors (fold (initMetric prefix names) ms c)) =
      fst ` set (cc_descriptors c) \<union> mc_Name ` {m \<in> set ms. mc_Type m \<in> set metricTypes}"
proof (induction ms arbitrary: c)
  case Nil
  show ?case by simp
next
  case (Cons m ms)
  have step: "fold (initMetric prefix names) (m # ms) c =
      fold (initMetric prefix names) ms (initMetric prefix names m c)"
    by simp
  note ih = Cons.IH [of "initMetric prefix names m c"]
  have l: "cc_log (fold (initMetric prefix names) (m # ms) c) =
      cc_log c @ map (\<lambda>m. (WarnLevel, ''Unknown metric type'', [(''type'', mc_Type m)]))
                   (filter (\<lambda>m. mc_Type m \<notin> set metricTypes) (m # ms))"
    unfolding step using ih by (simp add: initMetric_log)
  have d: "fst ` set (cc_descriptors (fold (initMetric prefix names) (m # ms) c)) =
      fst ` set (cc_descriptors c) \<union> mc_Name ` {m' \<in> set (m # ms). mc_Type m' \<in> set metricTypes}"
    unfolding step using ih by (auto simp: initMetric_descriptors simp del: set_map)
  from l d show ?case by blast
qed

text \<open>
  Claim C1 as the code has it. For a metric of a type that is none of the six,
  construction does not fail: \<^verbatim>\<open>initMetrics\<close> logs the warning
  \<open>Unknown metric type\<close> with the type, builds no descriptor in that turn of its loop, and
  goes on, so that the descriptors built are those of the metrics of a known type. At
  scrape time neither pass of \<^verbatim>\<open>collect\<close> emits anything for the metric, and nothing
  is reported then either.
\<close>

theorem unknown_type_skipped_with_warning:
  assumes "metricCfg \<in> set (crd_Metrics crdConfig)"
    and "mc_Type metricCfg \<notin> set metricTypes"
  shows "(WarnLevel, ''Unknown metric type'', [(''type'', mc_Type metricCfg)])
           \<in> set (cc_log (NewConfigurableCollector crdConfig metricPrefix))
       \<and> fst ` set (cc_descriptors (NewConfigurableCollector crdConfig metricPrefix)) =
           mc_Name ` {m \<in> set (crd_Metrics crdConfig). mc_Type m \<in> set metricTypes}
       \<and> collectResourceMetric pf c obj commonLabels metricCfg = []
       \<and> collectAggregateMetric c metricCfg = []"
proof -
  let ?c0 = "\<lparr>cc_log = [], cc_crdConfig = crdConfig, cc_metricPrefix = metricPrefix,
        cc_resources = [], cc_descriptors = []\<rparr>"
  obtain prefix names where new: "NewConfigurableCollector crdConfig metricPrefix =
      fold (initMetric prefix names) (crd_Metrics crdConfig) ?c0"
    by (simp add: NewConfigurableCollector_def initMetrics_def Let_def)
  note f = fold_initMetric [of prefix names "crd_Metrics crdConfig" ?c0]
  have l: "(WarnLevel, ''Unknown metric type'', [(''type'', mc_Type metricCfg)])
           \<in> set (cc_log (NewConfigurableCollector crdConfig metricPrefix))"
    unfolding new using f assms by auto
  have d: "fst ` set (cc_descriptors (NewConfigurableCollector crdConfig metricPrefix)) =
           mc_Name ` {m \<in> set (crd_Metrics crdConfig). mc_Type m \<in> set metricTypes}"
    unfolding new using f by simp
  have r: "collectResourceMetric pf c obj commonLabels metricCfg = []"
    using assms(2) by (simp add: collectResourceMetric_def metricTypes_def split: option.splits)
  have a: "collectAggregateMetric c metricCfg = []"
    using assms(2) by (simp add: collectAggregateMetric_def metricTypes_def)
  from l d r a show ?thesis by blast
qed

lemma crdUnknownType_collector:
  "NewConfigurableCollector crdUnknownType ''sealos'' =
     \<lparr>cc_log = [(WarnLevel, ''Unknown metric type'', [(''type'', ''histogram'')])],
      cc_crdConfig = crdUnknownType, cc_metricPrefix = ''sealos'', cc_resources = [],
      cc_descriptors =
        [(''status'', NewDesc ''sealos_app_status'' ''Application status'' [''name'', ''phase''])]\<rparr>"
  by (simp add: NewConfigurableCollector_def initMetrics_def initMetric_def
      descriptorLabelNames_def getCommonLabelNames_def getSortedKeys_def BuildFQName_def
      sanitizeName_def toLowerChar_def crdUnknownType_def cfgLatency_def cfgStatus_def)

text \<open>The metric \<open>latency\<close> of type \<open>histogram\<close>.\<close>

theorem unknown_type_skipped_with_warning_witness:
  "cfgLatency \<in> set (crd_Metrics crdUnknownType) \<and> mc_Type cfgLatency \<notin> set metricTypes
   \<and> (WarnLevel, ''Unknown metric type'', [(''type'', ''histogram'')])
        \<in> set (cc_log (NewConfigurableCollector crdUnknownType ''sealos''))
   \<and> collectAggregateMetric (NewConfigurableCollector crdUnknownType ''sealos'') cfgLatency = []"
proof -
  have h1: "cfgLatency \<in> set (crd_Metrics crdUnknownType)" by (simp add: crdUnknownType_def)
  have h2: "mc_Type cfgLatency \<notin> set metricTypes" by (simp add: cfgLatency_def metricTypes_def)
  have t: "mc_Type cfgLatency = ''histogram''" by (simp add: cfgLatency_def)
  from unknown_type_skipped_with_warning [OF h1 h2, of "''sealos''" ParseFloat_sample
      "NewConfigurableCollector crdUnknownType ''sealos''" objNew "[]"] h1 h2
  show ?thesis unfolding t by blast
qed

text \<open>
  Claim C1 as stated fails: a definition with a metric of type \<open>histogram\<close> is not
  rejected. Construction returns a collector whose only trace of the metric is a warning
  in the log, with the descriptor of the other metric built; after an object is added,
  \<^verbatim>\<open>collect\<close> emits that other metric and nothing else.
\<close>

theorem unknown_type_counterexample:
  "cc_log (NewConfigurableCollector crdUnknownType ''sealos'') =
     [(WarnLevel, ''Unknown metric type'', [(''type'', ''histogram'')])]
   \<and> map fst (cc_descriptors (NewConfigurableCollector crdUnknownType ''sealos'')) = [''status'']
   \<and> collect ParseFloat_sample (handleAdd objNew (NewConfigurableCollector crdUnknownType ''sealos'')) =
       [MustNewConstMetric (NewDesc ''sealos_app_status'' ''Application status'' [''name'', ''phase''])
          (Finite 1) [''app'', ''Running'']]"
  unfolding crdUnknownType_collector
  by (simp add: collect_def handleAdd_def extractCommonLabels_def
      getSortedValues_def getSortedKeys_def collectResourceMetric_def collectAggregateMetric_def
      collectInfoMetric_def extractFieldString_def NestedString_def objNew_def
      crdUnknownType_def cfgLatency_def cfgStatus_def)

end
